theory Spec2Isabelle
  imports Main "HOL-Library.Sublist"
begin

text \<open>
  The two source files of the staging layer of the supervisor, embedded function by
  function: \<open>lib/preparable/process.go\<close> (the two descriptors, their path derivations
  and their \<open>PrepareBin\<close>) and \<open>lib/utils/file_util.go\<close> (the locked reading and writing
  of the configuration file, and \<open>Unzip\<close>).  What the code calls in the Go library and in
  third-party packages is either modelled below (strings, \<open>path/filepath\<close>, the files of
  package \<open>os\<close>) or a parameter (the toolchain, the base64, zip and TOML codecs).  A
  method with a pointer receiver takes the descriptor and returns it as it leaves it.
\<close>

section \<open>Results of a call\<close>

text \<open>
  Go's \<open>error\<close> values.  The three errno values are the ones the filesystem model
  below produces; \<open>LibError\<close> stands for an error value made by a library that is a
  parameter of the model (base64, zip, toml, os/exec).
\<close>

datatype goerr = ENOENT | ENOTDIR | EISDIR | LibError string

text \<open>
  How a call ends: it returns a value, it panics (index out of range), it ends the
  whole process (\<open>log.Fatal\<close> prints and calls \<open>os.Exit(1)\<close>), or it waits for a lock
  that is never released.
\<close>

datatype 'a outcome = Returned 'a | Panic | Fatal goerr | Blocked

text \<open>
  A call that did not return ends its caller in the same way; \<open>abort\<close> carries that end
  over to the type of the caller's result (it is never applied to \<open>Returned\<close>).
\<close>

fun abort :: "'a outcome \<Rightarrow> 'b outcome" where
  "abort (Fatal e) = Fatal e"
| "abort Blocked = Blocked"
| "abort _ = Panic"

section \<open>Strings\<close>

text \<open>
  A Go string is a sequence of bytes.  \<open>s[i]\<close> panics unless \<open>0 \<le> i < len(s)\<close>;
  the index is a signed integer, so \<open>len(s)-1\<close> is \<open>-1\<close> for the empty string.
\<close>

definition byte_at :: "string \<Rightarrow> int \<Rightarrow> char outcome" where
  "byte_at s i = (if 0 \<le> i \<and> i < int (length s) then Returned (s ! nat i) else Panic)"

definition HasSuffix :: "string \<Rightarrow> string \<Rightarrow> bool" where
  "HasSuffix s suf =
     (length suf \<le> length s \<and> drop (length s - length suf) s = suf)"

definition TrimSuffix :: "string \<Rightarrow> string \<Rightarrow> string" where
  "TrimSuffix s suf = (if HasSuffix s suf then take (length s - length suf) s else s)"

section \<open>The two descriptors\<close>

text \<open>
  \<open>Preparable\<close> is the source-build descriptor.  \<open>BinaryPreparable\<close> has the same
  fields and \<open>BZipFile\<close> besides, so it is the record extended by that field.
\<close>

record Preparable =
  Name :: string
  SourcePath :: string
  Cmd :: string
  WorkingDir :: string
  SysFolder :: string
  Language :: string
  KeepAlive :: bool
  Args :: "string list"
  Envs :: "string list"

record BinaryPreparable = Preparable +
  BZipFile :: string

section \<open>Path derivation, source-build variant\<close>

text \<open>
  \<open>process.go\<close>, lines 119 to 140.  The receiver is a pointer: \<open>getPath\<close> writes the
  trimmed folder back into the descriptor, so every derivation returns the descriptor it
  leaves behind.
\<close>

definition getPath :: "Preparable \<Rightarrow> string outcome \<times> Preparable" where
  "getPath preparable =
     (case byte_at (SysFolder preparable) (int (length (SysFolder preparable)) - 1) of
        Returned c \<Rightarrow>
          (let p1 = (if c = CHR ''/''
                     then preparable\<lparr>SysFolder := TrimSuffix (SysFolder preparable) ''/''\<rparr>
                     else preparable)
           in (Returned (SysFolder p1 @ ''/'' @ Name p1), p1))
      | r \<Rightarrow> (abort r, preparable))"

definition getBinPath :: "Preparable \<Rightarrow> string outcome \<times> Preparable" where
  "getBinPath preparable =
     (case getPath preparable of
        (Returned path, p1) \<Rightarrow> (Returned (path @ ''/'' @ Name p1), p1)
      | (r, p1) \<Rightarrow> (abort r, p1))"

definition getPidPath :: "Preparable \<Rightarrow> string outcome \<times> Preparable" where
  "getPidPath preparable =
     (case getBinPath preparable of
        (Returned bin, p1) \<Rightarrow> (Returned (bin @ ''.pid''), p1)
      | (r, p1) \<Rightarrow> (abort r, p1))"

definition getOutPath :: "Preparable \<Rightarrow> string outcome \<times> Preparable" where
  "getOutPath preparable =
     (case getBinPath preparable of
        (Returned bin, p1) \<Rightarrow> (Returned (bin @ ''.out''), p1)
      | (r, p1) \<Rightarrow> (abort r, p1))"

definition getErrPath :: "Preparable \<Rightarrow> string outcome \<times> Preparable" where
  "getErrPath preparable =
     (case getBinPath preparable of
        (Returned bin, p1) \<Rightarrow> (Returned (bin @ ''.err''), p1)
      | (r, p1) \<Rightarrow> (abort r, p1))"

section \<open>PrepareBin, source-build variant\<close>

text \<open>
  \<open>process.go\<close>, lines 58 to 74.  \<open>exec.Command(cmd, args...).Output()\<close> is the
  toolchain: a parameter that maps the command and its arguments to the captured output
  and the error, if any.
\<close>

type_synonym toolchain = "string \<Rightarrow> string list \<Rightarrow> string \<times> goerr option"

definition PrepareBin ::
  "toolchain \<Rightarrow> Preparable \<Rightarrow> (string \<times> goerr option) outcome \<times> Preparable" where
  "PrepareBin run preparable =
     (case byte_at (SourcePath preparable) (int (length (SourcePath preparable)) - 1) of
        Returned c \<Rightarrow>
          (let p1 = (if c = CHR ''/''
                     then preparable\<lparr>SourcePath := TrimSuffix (SourcePath preparable) ''/''\<rparr>
                     else preparable)
           in case getBinPath p1 of
                (Returned binPath, p2) \<Rightarrow>
                  (let (cmd, cmdArgs) =
                         (if Language p2 = ''go''
                          then (''go'', [''build'', ''-o'', binPath, SourcePath p2 @ ''/.''])
                          else ('''', []));
                       p3 = p2\<lparr>Cmd := binPath\<rparr>
                   in (Returned (run cmd cmdArgs), p3))
              | (r, p2) \<Rightarrow> (abort r, p2))
      | r \<Rightarrow> (abort r, preparable))"

section \<open>Path derivation, binary-bundle variant\<close>

text \<open>\<open>process.go\<close>, lines 238 to 258.\<close>

definition getPath_Binary :: "BinaryPreparable \<Rightarrow> string outcome \<times> BinaryPreparable" where
  "getPath_Binary preparable =
     (case byte_at (SysFolder preparable) (int (length (SysFolder preparable)) - 1) of
        Returned c \<Rightarrow>
          (let p1 = (if c = CHR ''/''
                     then preparable\<lparr>SysFolder := TrimSuffix (SysFolder preparable) ''/''\<rparr>
                     else preparable)
           in (Returned (SysFolder p1 @ ''/'' @ Name p1), p1))
      | r \<Rightarrow> (abort r, preparable))"

definition getBinPath_Binary :: "BinaryPreparable \<Rightarrow> string outcome \<times> BinaryPreparable" where
  "getBinPath_Binary preparable = (Returned (SourcePath preparable), preparable)"

definition getPidPath_Binary :: "BinaryPreparable \<Rightarrow> string outcome \<times> BinaryPreparable" where
  "getPidPath_Binary preparable =
     (case getPath_Binary preparable of
        (Returned path, p1) \<Rightarrow> (Returned (path @ ''/'' @ Name p1 @ ''.pid''), p1)
      | (r, p1) \<Rightarrow> (abort r, p1))"

definition getOutPath_Binary :: "BinaryPreparable \<Rightarrow> string outcome \<times> BinaryPreparable" where
  "getOutPath_Binary preparable =
     (case getPath_Binary preparable of
        (Returned path, p1) \<Rightarrow> (Returned (path @ ''/'' @ Name p1 @ ''.out''), p1)
      | (r, p1) \<Rightarrow> (abort r, p1))"

definition getErrPath_Binary :: "BinaryPreparable \<Rightarrow> string outcome \<times> BinaryPreparable" where
  "getErrPath_Binary preparable =
     (case getPath_Binary preparable of
        (Returned path, p1) \<Rightarrow> (Returned (path @ ''/'' @ Name p1 @ ''.err''), p1)
      | (r, p1) \<Rightarrow> (abort r, p1))"

section \<open>Paths (path/filepath on Unix)\<close>

text \<open>\<open>strings.Split(s, "/")\<close>: the pieces between separators, never an empty list.\<close>

fun split_from :: "string \<Rightarrow> string \<Rightarrow> string list" where
  "split_from cur [] = [cur]"
| "split_from cur (c # cs) =
     (if c = CHR ''/'' then cur # split_from [] cs else split_from (cur @ [c]) cs)"

definition split_sep :: "string \<Rightarrow> string list" where
  "split_sep s = split_from [] s"

text \<open>\<open>strings.Join(xs, "/")\<close>.\<close>

fun join_sep :: "string list \<Rightarrow> string" where
  "join_sep [] = []"
| "join_sep [x] = x"
| "join_sep (x # y # ys) = x @ CHR ''/'' # join_sep (y # ys)"

text \<open>
  One step of \<open>filepath.Clean\<close> on the elements kept so far, the last kept element
  first: an empty element and \<open>.\<close> are dropped; \<open>..\<close> removes the element before it
  when there is one that is not \<open>..\<close> itself, is dropped at the root of a rooted path,
  and is kept otherwise.
\<close>

definition clean_step :: "bool \<Rightarrow> string list \<Rightarrow> string \<Rightarrow> string list" where
  "clean_step rooted st c =
     (if c = [] \<or> c = ''.'' then st
      else if c = ''..'' then
        (if st \<noteq> [] \<and> hd st \<noteq> ''..'' then tl st
         else if rooted then st
         else c # st)
      else c # st)"

text \<open>A path resolved lexically: whether it is rooted, and its cleaned elements.\<close>

definition resolve :: "string \<Rightarrow> bool \<times> string list" where
  "resolve path =
     (let rooted = (path \<noteq> [] \<and> hd path = CHR ''/'')
      in (rooted, rev (foldl (clean_step rooted) [] (split_sep path))))"

fun render :: "bool \<times> string list \<Rightarrow> string" where
  "render (rooted, out) =
     (if rooted then CHR ''/'' # join_sep out
      else if out = [] then ''.''
      else join_sep out)"

definition Clean :: "string \<Rightarrow> string" where
  "Clean path = (if path = [] then ''.'' else render (resolve path))"

text \<open>
  \<open>filepath.Join(a, b)\<close>: empty arguments before the first non-empty one are
  ignored, the rest is joined with separators and cleaned; all empty gives the empty
  string.
\<close>

definition Join :: "string \<Rightarrow> string \<Rightarrow> string" where
  "Join a b =
     (if a \<noteq> [] then Clean (a @ ''/'' @ b)
      else if b \<noteq> [] then Clean b
      else [])"

text \<open>\<open>strings.LastIndex(s, "/")\<close>: the index of the last separator, \<open>-1\<close> without one.\<close>

definition LastIndex_sep :: "string \<Rightarrow> int" where
  "LastIndex_sep s =
     (if CHR ''/'' \<in> set s
      then int (length s) - 1 - int (length (takeWhile (\<lambda>c. c \<noteq> CHR ''/'') (rev s)))
      else - 1)"

text \<open>\<open>filepath.Dir(path)\<close>: the path up to and including its last separator, cleaned.\<close>

definition filepath_Dir :: "string \<Rightarrow> string" where
  "filepath_Dir path = Clean (take (nat (LastIndex_sep path + 1)) path)"

section \<open>The filesystem\<close>

text \<open>
  The files and directories of the machine, by cleaned path.  Every operation of
  package \<open>os\<close> resolves the path it is given lexically (there are no symbolic
  links in the model, and no permissions: a mode argument has no effect).  The root
  and the working directory always exist.
\<close>

datatype node = FileNode string | DirNode

type_synonym filesys = "string \<Rightarrow> node option"

definition lookup :: "filesys \<Rightarrow> string \<Rightarrow> node option" where
  "lookup fs k = (if k = ''/'' \<or> k = ''.'' then Some DirNode else fs k)"

fun is_file :: "node option \<Rightarrow> bool" where
  "is_file (Some (FileNode d)) = True"
| "is_file _ = False"

text \<open>The path of a directory and of each directory above it, outermost first.\<close>

definition dir_chain :: "string \<Rightarrow> string list" where
  "dir_chain path =
     (case resolve path of (rooted, out) \<Rightarrow>
        map (\<lambda>cs. render (rooted, cs)) (tl (prefixes out)))"

text \<open>
  \<open>os.MkdirAll(path, perm)\<close>: creates the directory and every missing directory
  above it; an existing directory is left alone; a file in the way is \<open>ENOTDIR\<close> and
  the empty path \<open>ENOENT\<close>.
\<close>

definition MkdirAll :: "string \<Rightarrow> filesys \<Rightarrow> goerr option \<times> filesys" where
  "MkdirAll path fs =
     (if path = [] then (Some ENOENT, fs)
      else if list_ex (\<lambda>k. is_file (lookup fs k)) (dir_chain path) then (Some ENOTDIR, fs)
      else (None, foldl (\<lambda>f k. f(k \<mapsto> DirNode)) fs (dir_chain path)))"

text \<open>
  \<open>os.OpenFile(path, O_WRONLY|O_CREATE|O_TRUNC, perm)\<close>: the file is created or
  emptied.  A directory at the path is \<open>EISDIR\<close>; the directory above must exist.
\<close>

definition OpenFile_trunc :: "string \<Rightarrow> filesys \<Rightarrow> goerr option \<times> filesys" where
  "OpenFile_trunc path fs =
     (if path = [] then (Some ENOENT, fs)
      else case resolve path of (rooted, out) \<Rightarrow>
        (case lookup fs (render (rooted, out)) of
           Some DirNode \<Rightarrow> (Some EISDIR, fs)
         | _ \<Rightarrow>
           (case lookup fs (render (rooted, butlast out)) of
              Some DirNode \<Rightarrow> (None, fs(render (rooted, out) \<mapsto> FileNode []))
            | Some (FileNode d) \<Rightarrow> (Some ENOTDIR, fs)
            | None \<Rightarrow> (Some ENOENT, fs))))"

text \<open>Writing \<open>b\<close> to the file just opened at \<open>path\<close>, which replaces its (empty) content.\<close>

definition write_open :: "string \<Rightarrow> string \<Rightarrow> filesys \<Rightarrow> filesys" where
  "write_open path b fs = fs(Clean path \<mapsto> FileNode b)"

text \<open>\<open>ioutil.WriteFile(path, b, perm)\<close>: open as above, write, close.\<close>

definition WriteFile :: "string \<Rightarrow> string \<Rightarrow> filesys \<Rightarrow> goerr option \<times> filesys" where
  "WriteFile path b fs =
     (case OpenFile_trunc path fs of
        (Some e, fs1) \<Rightarrow> (Some e, fs1)
      | (None, fs1) \<Rightarrow> (None, write_open path b fs1))"

text \<open>Reading a whole file.\<close>

definition ReadFile :: "string \<Rightarrow> filesys \<Rightarrow> goerr + string" where
  "ReadFile path fs =
     (if path = [] then Inl ENOENT
      else case lookup fs (Clean path) of
             Some (FileNode d) \<Rightarrow> Inr d
           | Some DirNode \<Rightarrow> Inl EISDIR
           | None \<Rightarrow> Inl ENOENT)"

section \<open>Archive extraction\<close>

text \<open>
  One entry of a zip archive as \<open>archive/zip\<close> presents it: its name, the directory
  bit of its mode, the error of \<open>Open\<close> if it cannot be opened, its bytes, and the error
  that ends reading them, if any (a checksum that does not match).
\<close>

record zipFile =
  zName :: string
  zModeDir :: bool
  zOpenErr :: "goerr option"
  zData :: string
  zReadErr :: "goerr option"

text \<open>
  \<open>f.FileInfo().IsDir()\<close>: the mode has the directory bit, which \<open>archive/zip\<close> also
  sets for a name that ends in a separator.
\<close>

definition IsDir :: "zipFile \<Rightarrow> bool" where
  "IsDir f = (zModeDir f \<or> (zName f \<noteq> [] \<and> last (zName f) = CHR ''/''))"

text \<open>
  The decoder of the zip format is a parameter: from the bytes of an archive to its
  entries, or the error of \<open>zip.OpenReader\<close>.
\<close>

type_synonym zipdecoder = "string \<Rightarrow> goerr + zipFile list"

definition OpenReader :: "zipdecoder \<Rightarrow> string \<Rightarrow> filesys \<Rightarrow> goerr + zipFile list" where
  "OpenReader unzip src fs =
     (case ReadFile src fs of Inl e \<Rightarrow> Inl e | Inr b \<Rightarrow> unzip b)"

text \<open>
  \<open>file_util.go\<close>, lines 65 to 107.  The loop of \<open>Unzip\<close> over the entries: each case
  below is a \<open>return\<close> of the source, but for the failure of \<open>os.MkdirAll\<close> on the
  directory of a file, which ends in \<open>log.Fatal\<close>, and for its failure on a directory
  entry, where the source does not look at the error.
\<close>

fun Unzip_entries :: "string \<Rightarrow> zipFile list \<Rightarrow> filesys \<Rightarrow> goerr option outcome \<times> filesys" where
  "Unzip_entries dest [] fs = (Returned None, fs)"
| "Unzip_entries dest (f # rest) fs =
     (case zOpenErr f of
        Some e \<Rightarrow> (Returned (Some e), fs)
      | None \<Rightarrow>
        (let fpath = Join dest (zName f) in
         if IsDir f then Unzip_entries dest rest (snd (MkdirAll fpath fs))
         else
           (let lastIndex = LastIndex_sep fpath;
                fdir = (if lastIndex > - 1 then take (nat lastIndex) fpath else [])
            in case MkdirAll fdir fs of
                 (Some e, fs1) \<Rightarrow> (Fatal e, fs1)
               | (None, fs1) \<Rightarrow>
                 (case OpenFile_trunc fpath fs1 of
                    (Some e, fs2) \<Rightarrow> (Returned (Some e), fs2)
                  | (None, fs2) \<Rightarrow>
                    (case zReadErr f of
                       Some e \<Rightarrow> (Returned (Some e), write_open fpath (zData f) fs2)
                     | None \<Rightarrow> Unzip_entries dest rest (write_open fpath (zData f) fs2))))))"

definition Unzip ::
  "zipdecoder \<Rightarrow> string \<Rightarrow> string \<Rightarrow> filesys \<Rightarrow> goerr option outcome \<times> filesys" where
  "Unzip unzip src dest fs =
     (case OpenReader unzip src fs of
        Inl e \<Rightarrow> (Returned (Some e), fs)
      | Inr entries \<Rightarrow> Unzip_entries dest entries fs)"

section \<open>The machine: files, log and file locks\<close>

text \<open>A line handed to \<open>log.Printf\<close>: the format, the error and the other arguments.\<close>

datatype logline = Printf string goerr "string list"

record world =
  files :: filesys
  logged :: "logline list"
  locked :: "string set"

section \<open>PrepareBin, binary-bundle variant\<close>

text \<open>
  \<open>process.go\<close>, lines 146 to 185.  \<open>base64.StdEncoding.DecodeString\<close> is a
  parameter, like the zip decoder.  Every \<open>return\<close> of the source is a \<open>Returned\<close>
  below; \<open>make([]byte, 0)\<close> is the empty string.
\<close>

type_synonym b64decoder = "string \<Rightarrow> goerr + string"

definition PrepareBin_Binary ::
  "b64decoder \<Rightarrow> zipdecoder \<Rightarrow> BinaryPreparable \<Rightarrow> world \<Rightarrow>
     (string \<times> goerr option) outcome \<times> BinaryPreparable \<times> world" where
  "PrepareBin_Binary DecodeString unzip preparable w =
     (case getOutPath_Binary preparable of
        (Returned outPath, p1) \<Rightarrow>
          (case MkdirAll (filepath_Dir outPath) (files w) of
             (Some err, fs1) \<Rightarrow> (Returned ([], Some err), p1, w\<lparr>files := fs1\<rparr>)
           | (None, fs1) \<Rightarrow>
             (case getPath_Binary p1 of
                (Returned path2, p2) \<Rightarrow>
                  (let runtimePath = path2 @ ''/runtime'' in
                   case MkdirAll runtimePath fs1 of
                     (Some err, fs2) \<Rightarrow> (Returned ([], Some err), p2, w\<lparr>files := fs2\<rparr>)
                   | (None, fs2) \<Rightarrow>
                     (let p3 = p2\<lparr>Envs := Envs p2 @
                                  [''LAMBDA_TASK_ROOT='' @ runtimePath,
                                   ''PATH=/home/silas/.deno/bin:/usr/bin'']\<rparr>
                      in case DecodeString (BZipFile p3) of
                           Inl err \<Rightarrow>
                             (Returned ([], Some err), p3,
                              w\<lparr>files := fs2,
                                logged := logged w @ [Printf ''decode error:'' err []]\<rparr>)
                         | Inr decoded \<Rightarrow>
                           (case getPath_Binary p3 of
                              (Returned path3, p4) \<Rightarrow>
                                (let zipPath = path3 @ ''/function.zip'' in
                                 case WriteFile zipPath decoded fs2 of
                                   (Some err, fs3) \<Rightarrow>
                                     (Returned ([], Some err), p4,
                                      w\<lparr>files := fs3,
                                        logged := logged w @ [Printf ''decode error:'' err []]\<rparr>)
                                 | (None, fs3) \<Rightarrow>
                                   (case Unzip unzip zipPath runtimePath fs3 of
                                      (Returned err, fs4) \<Rightarrow>
                                        (let lg = (case err of
                                                     Some e \<Rightarrow>
                                                       logged w @
                                                       [Printf ''error unzipping file: %s at path %s''
                                                          e [runtimePath]]
                                                   | None \<Rightarrow> logged w)
                                         in case getPath_Binary p4 of
                                              (Returned path4, p5) \<Rightarrow>
                                                (Returned ([], err),
                                                 p5\<lparr>Cmd := path4 @ ''/runtime/bootstrap''\<rparr>,
                                                 w\<lparr>files := fs4, logged := lg\<rparr>)
                                            | (r, p5) \<Rightarrow>
                                                (abort r, p5, w\<lparr>files := fs4, logged := lg\<rparr>))
                                    | (r, fs4) \<Rightarrow> (abort r, p4, w\<lparr>files := fs4\<rparr>)))
                            | (r, p4) \<Rightarrow> (abort r, p4, w\<lparr>files := fs2\<rparr>))))
              | (r, p2) \<Rightarrow> (abort r, p2, w\<lparr>files := fs1\<rparr>)))
      | (r, p1) \<Rightarrow> (abort r, p1, w))"

section \<open>Locked reading and writing of the configuration file\<close>

text \<open>
  Modelled from the spec: \<open>MakeFileMutex\<close> and the \<open>Lock\<close> and \<open>Unlock\<close> of what it
  returns are not among the sources.  The spec gives an exclusive lock scoped to the
  path of the file, for which a caller waits without a time limit: taking a lock that
  is held never returns, and neither operation touches the files.
\<close>

definition Lock :: "string \<Rightarrow> world \<Rightarrow> world option" where
  "Lock filename w =
     (if filename \<in> locked w then None else Some (w\<lparr>locked := insert filename (locked w)\<rparr>))"

text \<open>
  Modelled from the spec: \<open>Unlock\<close>, which the spec has run on every return, gives the
  lock of the path back.
\<close>

definition Unlock :: "string \<Rightarrow> world \<Rightarrow> world" where
  "Unlock filename w = w\<lparr>locked := locked w - {filename}\<rparr>"

text \<open>
  \<open>file_util.go\<close>, lines 30 to 52.  The TOML library is a parameter: the encoder gives
  the bytes it wrote and its error, if any; the decoder reads the bytes into the value
  the caller passed and gives the value filled in, or its error.  \<open>SafeReadTomlFile\<close>
  fills in the value behind the pointer it is given: the model returns that value
  beside the error.
\<close>

type_synonym 'v tomlencoder = "'v \<Rightarrow> string \<times> goerr option"
type_synonym 'v tomldecoder = "string \<Rightarrow> 'v \<Rightarrow> goerr + 'v"

definition SafeReadTomlFile ::
  "'v tomldecoder \<Rightarrow> string \<Rightarrow> 'v \<Rightarrow> world \<Rightarrow> (goerr option \<times> 'v) outcome \<times> world" where
  "SafeReadTomlFile decode filename v w =
     (case Lock filename w of
        None \<Rightarrow> (Blocked, w)
      | Some w1 \<Rightarrow>
        (case ReadFile filename (files w1) of
           Inl err \<Rightarrow> (Returned (Some err, v), Unlock filename w1)
         | Inr b \<Rightarrow>
           (case decode b v of
              Inl err \<Rightarrow> (Returned (Some err, v), Unlock filename w1)
            | Inr v' \<Rightarrow> (Returned (None, v'), Unlock filename w1))))"

definition SafeWriteTomlFile ::
  "'v tomlencoder \<Rightarrow> 'v \<Rightarrow> string \<Rightarrow> world \<Rightarrow> goerr option outcome \<times> world" where
  "SafeWriteTomlFile encode v filename w =
     (case Lock filename w of
        None \<Rightarrow> (Blocked, w)
      | Some w1 \<Rightarrow>
        (case OpenFile_trunc filename (files w1) of
           (Some err, fs1) \<Rightarrow> (Returned (Some err), Unlock filename (w1\<lparr>files := fs1\<rparr>))
         | (None, fs1) \<Rightarrow>
           (case encode v of
              (b, err) \<Rightarrow>
                (Returned err, Unlock filename (w1\<lparr>files := write_open filename b fs1\<rparr>)))))"

section \<open>Vocabulary of the properties, and example data\<close>

text \<open>A folder written in normal form: not empty, and no separator at its end.\<close>

definition normal_folder :: "string \<Rightarrow> bool" where
  "normal_folder s = (s \<noteq> [] \<and> last s \<noteq> CHR ''/'')"

text \<open>
  The elements that \<open>filepath.Clean\<close> keeps, the last one first: each is a name without
  a separator, other than the empty name and \<open>.\<close>; the elements \<open>..\<close> stand together
  at the front of a path that is not rooted, and nowhere else.
\<close>

definition norm_elem :: "string \<Rightarrow> bool" where
  "norm_elem c = (c \<noteq> [] \<and> c \<noteq> ''.'' \<and> CHR ''/'' \<notin> set c)"

fun wf_stack :: "bool \<Rightarrow> string list \<Rightarrow> bool" where
  "wf_stack r [] = True"
| "wf_stack r (c # st) =
     (if c = ''..'' then \<not> r \<and> list_all (\<lambda>d. d = ''..'') st
      else norm_elem c \<and> wf_stack r st)"

text \<open>
  A path lies inside a root when, both resolved, they are rooted alike, the elements of
  the root begin those of the path, and no \<open>..\<close> follows them.
\<close>

definition inside :: "string \<Rightarrow> string \<Rightarrow> bool" where
  "inside root path =
     (case (resolve root, resolve path) of
        ((r1, cs1), (r2, cs2)) \<Rightarrow>
          r1 = r2 \<and> prefix cs1 cs2 \<and> ''..'' \<notin> set (drop (length cs1) cs2))"

text \<open>A source-build descriptor and a binary-bundle descriptor as a registry holds them.\<close>

definition demo_src :: Preparable where
  "demo_src =
     \<lparr>Name = ''api'', SourcePath = ''/home/dev/api/'', Cmd = [], WorkingDir = [],
      SysFolder = ''/var/pm/'', Language = ''go'', KeepAlive = True, Args = [], Envs = []\<rparr>"

definition demo_bin :: BinaryPreparable where
  "demo_bin =
     \<lparr>Name = ''fn'', SourcePath = [], Cmd = [], WorkingDir = [],
      SysFolder = ''/var/pm/'', Language = [], KeepAlive = True, Args = [], Envs = [],
      BZipFile = ''UEs=''\<rparr>"

text \<open>A toolchain whose every invocation fails with the same output.\<close>

definition failing_toolchain :: toolchain where
  "failing_toolchain cmd cmdArgs = (''build failed'', Some (LibError ''exit status 1''))"

text \<open>
  A base64 decoder that knows one payload, the two bytes \<open>PK\<close>, and a zip decoder that
  reads every archive as the given list of entries.
\<close>

definition demo_b64 :: b64decoder where
  "demo_b64 s = (if s = ''UEs='' then Inr ''PK'' else Inl (LibError ''illegal base64 data''))"

definition reads_as :: "zipFile list \<Rightarrow> zipdecoder" where
  "reads_as entries b = Inr entries"

definition file_entry :: "string \<Rightarrow> string \<Rightarrow> zipFile" where
  "file_entry name b =
     \<lparr>zName = name, zModeDir = False, zOpenErr = None, zData = b, zReadErr = None\<rparr>"

text \<open>
  Four archives: a bundle with \<open>bootstrap\<close> at its root; one whose entry climbs out of
  the destination; one with a file and an entry below a file of that name; and one with
  \<open>bootstrap\<close> at its root after an entry stored with a compression method that
  \<open>archive/zip\<close> does not read, so that its \<open>Open\<close> fails.
\<close>

definition fn_bundle :: "zipFile list" where
  "fn_bundle = [file_entry ''bootstrap'' ''#!/bin/sh'', file_entry ''handler.js'' ''x'']"

definition traversal :: "zipFile list" where
  "traversal = [file_entry ''../../etc/passwd'' ''root::0:0'']"

definition clash :: "zipFile list" where
  "clash = [file_entry ''a'' ''1'', file_entry ''a/b'' ''2'']"

definition foreign :: "zipFile list" where
  "foreign =
     [\<lparr>zName = ''handler.js'', zModeDir = False,
       zOpenErr = Some (LibError ''zip: unsupported compression algorithm''),
       zData = [], zReadErr = None\<rparr>,
      file_entry ''bootstrap'' ''#!/bin/sh'']"

text \<open>
  A stand-in for the TOML library on registries that are their own text: the encoder
  writes the value as it is and the decoder returns the text it reads.
\<close>

definition text_encode :: "string tomlencoder" where
  "text_encode v = (v, None)"

definition text_decode :: "string tomldecoder" where
  "text_decode b target = Inr b"

text \<open>An archive with a file and, after it, a directory entry of the same name.\<close>

definition shadow :: "zipFile list" where
  "shadow =
     [file_entry ''a'' ''1'',
      \<lparr>zName = ''a/'', zModeDir = True, zOpenErr = None, zData = [], zReadErr = None\<rparr>]"

text \<open>
  A machine with no files yet; the files of a host with a password file and a staged
  archive; and the files of a machine on which the bundle of \<open>fn\<close> has been staged.
\<close>

definition fresh :: world where
  "fresh = \<lparr>files = Map.empty, logged = [], locked = {}\<rparr>"

definition host :: filesys where
  "host =
     [''/etc'' \<mapsto> DirNode, ''/etc/passwd'' \<mapsto> FileNode ''root:x:0:0'',
      ''/srv'' \<mapsto> DirNode, ''/srv/runtime'' \<mapsto> DirNode,
      ''/srv/function.zip'' \<mapsto> FileNode ''PK'']"

definition staged :: filesys where
  "staged =
     [''/var'' \<mapsto> DirNode, ''/var/pm'' \<mapsto> DirNode, ''/var/pm/fn'' \<mapsto> DirNode,
      ''/var/pm/fn/runtime'' \<mapsto> DirNode, ''/var/pm/fn/function.zip'' \<mapsto> FileNode ''PK'']"

section \<open>Basic facts\<close>

lemma byte_at_last:
  "byte_at s (int (length s) - 1) = (if s = [] then Panic else Returned (last s))"
  by (cases s rule: rev_cases) (simp_all add: byte_at_def nth_append)

lemma TrimSuffix_sep:
  "TrimSuffix s ''/'' = (if s \<noteq> [] \<and> last s = CHR ''/'' then butlast s else s)"
  by (cases s rule: rev_cases) (auto simp: TrimSuffix_def HasSuffix_def)

lemma TrimSuffix_normal: "normal_folder s \<Longrightarrow> TrimSuffix s ''/'' = s"
  by (simp add: TrimSuffix_sep normal_folder_def)

lemma normal_trim_nonempty: "normal_folder (TrimSuffix s ''/'') \<Longrightarrow> s \<noteq> []"
  by (auto simp: normal_folder_def TrimSuffix_sep)

subsection \<open>The derivations in closed form\<close>

lemma getPath_eq:
  "getPath p =
     (if SysFolder p = [] then (Panic, p)
      else (Returned (TrimSuffix (SysFolder p) ''/'' @ ''/'' @ Name p),
            p\<lparr>SysFolder := TrimSuffix (SysFolder p) ''/''\<rparr>))"
  by (simp add: getPath_def byte_at_last TrimSuffix_sep Let_def)

lemma getPath_Binary_eq:
  "getPath_Binary p =
     (if SysFolder p = [] then (Panic, p)
      else (Returned (TrimSuffix (SysFolder p) ''/'' @ ''/'' @ Name p),
            p\<lparr>SysFolder := TrimSuffix (SysFolder p) ''/''\<rparr>))"
  by (simp add: getPath_Binary_def byte_at_last TrimSuffix_sep Let_def)

lemma getBinPath_eq:
  "getBinPath p =
     (if SysFolder p = [] then (Panic, p)
      else (Returned (TrimSuffix (SysFolder p) ''/'' @ ''/'' @ Name p @ ''/'' @ Name p),
            p\<lparr>SysFolder := TrimSuffix (SysFolder p) ''/''\<rparr>))"
  by (simp add: getBinPath_def getPath_eq)

lemmas source_paths = getBinPath_eq getPidPath_def getOutPath_def getErrPath_def

lemmas binary_paths = getPath_Binary_eq getPidPath_Binary_def getOutPath_Binary_def
  getErrPath_Binary_def

lemma PrepareBin_eq:
  "PrepareBin run p =
     (if SourcePath p = [] then (Panic, p)
      else if SysFolder p = [] then (Panic, p\<lparr>SourcePath := TrimSuffix (SourcePath p) ''/''\<rparr>)
      else
        (let bin = TrimSuffix (SysFolder p) ''/'' @ ''/'' @ Name p @ ''/'' @ Name p;
             src = TrimSuffix (SourcePath p) ''/''
         in (Returned (if Language p = ''go''
                       then run ''go'' [''build'', ''-o'', bin, src @ ''/.'']
                       else run [] []),
             p\<lparr>SourcePath := src, SysFolder := TrimSuffix (SysFolder p) ''/'', Cmd := bin\<rparr>)))"
  by (simp add: PrepareBin_def byte_at_last TrimSuffix_sep Let_def getBinPath_eq)

section \<open>Cleaning and joining paths\<close>

lemma split_from_append:
  "split_from cur (a @ CHR ''/'' # b) = split_from cur a @ split_from [] b"
  by (induction a arbitrary: cur) simp_all

lemma split_from_nosep: "CHR ''/'' \<notin> set a \<Longrightarrow> split_from cur a = [cur @ a]"
  by (induction a arbitrary: cur) auto

lemma split_from_elems:
  "c \<in> set (split_from cur s) \<Longrightarrow> CHR ''/'' \<notin> set cur \<Longrightarrow> CHR ''/'' \<notin> set c"
proof (induction s arbitrary: cur)
  case Nil
  then show ?case by simp
next
  case (Cons x s)
  show ?case
  proof (cases "x = CHR ''/''")
    case True
    with Cons.prems have "c = cur \<or> c \<in> set (split_from [] s)" by simp
    then show ?thesis using Cons.prems(2) Cons.IH [of "[]"] by auto
  next
    case False
    with Cons.prems have "c \<in> set (split_from (cur @ [x]) s)" by simp
    then show ?thesis using Cons.prems(2) False Cons.IH [of "cur @ [x]"] by auto
  qed
qed

lemma split_sep_append: "split_sep (a @ CHR ''/'' # b) = split_sep a @ split_sep b"
  by (simp add: split_sep_def split_from_append)

lemma split_sep_elems: "c \<in> set (split_sep s) \<Longrightarrow> CHR ''/'' \<notin> set c"
  by (auto simp: split_sep_def dest: split_from_elems)

lemma split_sep_join:
  "xs \<noteq> [] \<Longrightarrow> \<forall>c\<in>set xs. CHR ''/'' \<notin> set c \<Longrightarrow> split_sep (join_sep xs) = xs"
proof (induction xs rule: join_sep.induct)
  case 1 then show ?case by simp
next
  case (2 x) then show ?case by (simp add: split_sep_def split_from_nosep)
next
  case (3 x y ys)
  have "split_sep x = [x]" using 3 by (simp add: split_sep_def split_from_nosep)
  with 3 show ?case by (simp add: split_sep_append)
qed

lemma all_dots_wf: "\<not> r \<Longrightarrow> list_all (\<lambda>d. d = ''..'') st \<Longrightarrow> wf_stack r st"
  by (induction st) auto

lemma wf_stack_tl: "wf_stack r (c # st) \<Longrightarrow> wf_stack r st"
  by (auto simp: all_dots_wf split: if_splits)

lemma clean_step_wf:
  "wf_stack r st \<Longrightarrow> CHR ''/'' \<notin> set c \<Longrightarrow> wf_stack r (clean_step r st c)"
  by (cases st) (auto simp: clean_step_def norm_elem_def all_dots_wf split: if_splits)

lemma foldl_clean_wf:
  "wf_stack r st \<Longrightarrow> \<forall>c\<in>set xs. CHR ''/'' \<notin> set c \<Longrightarrow> wf_stack r (foldl (clean_step r) st xs)"
  by (induction xs arbitrary: st) (simp_all add: clean_step_wf)

lemma clean_step_push: "wf_stack r (c # st) \<Longrightarrow> clean_step r st c = c # st"
  by (cases st) (auto simp: clean_step_def norm_elem_def split: if_splits)

lemma foldl_clean_rev: "wf_stack r st \<Longrightarrow> foldl (clean_step r) [] (rev st) = st"
proof (induction st)
  case Nil then show ?case by simp
next
  case (Cons c st)
  from Cons.prems have "wf_stack r st" by (rule wf_stack_tl)
  then have "foldl (clean_step r) [] (rev st) = st" by (rule Cons.IH)
  then show ?case using clean_step_push [OF Cons.prems] by simp
qed

lemma wf_resolve: "wf_stack (fst (resolve s)) (rev (snd (resolve s)))"
proof -
  have "\<forall>c\<in>set (split_sep s). CHR ''/'' \<notin> set c"
    using split_sep_elems by blast
  then have "wf_stack r (foldl (clean_step r) [] (split_sep s))" for r
    by (intro foldl_clean_wf) simp_all
  then show ?thesis by (simp add: resolve_def Let_def)
qed

lemma wf_elems_nosep: "wf_stack r st \<Longrightarrow> c \<in> set st \<Longrightarrow> c \<noteq> [] \<and> CHR ''/'' \<notin> set c"
proof (induction st)
  case Nil
  then show ?case by simp
next
  case (Cons d st)
  show ?case
  proof (cases "d = ''..''")
    case True
    with Cons.prems have "list_all (\<lambda>d. d = ''..'') (d # st)" by simp
    with Cons.prems(2) have "c = ''..''" unfolding list_all_iff by blast
    then show ?thesis by simp
  next
    case False
    with Cons.prems(1) have d: "norm_elem d" and st: "wf_stack r st" by simp_all
    from Cons.prems(2) have "c = d \<or> c \<in> set st" by simp
    then show ?thesis
    proof
      assume "c = d" with d show ?thesis by (simp add: norm_elem_def)
    next
      assume "c \<in> set st" with st show ?thesis by (rule Cons.IH)
    qed
  qed
qed

lemma hd_join_sep: "xs \<noteq> [] \<Longrightarrow> hd xs \<noteq> [] \<Longrightarrow> join_sep xs \<noteq> [] \<and> hd (join_sep xs) = hd (hd xs)"
  by (induction xs rule: join_sep.induct) auto

lemma resolve_render:
  assumes "wf_stack r st"
  shows "resolve (render (r, rev st)) = (r, rev st)"
proof (cases "st = []")
  case True
  then show ?thesis by (cases r) (simp_all add: resolve_def split_sep_def clean_step_def)
next
  case False
  have el: "\<forall>c\<in>set (rev st). CHR ''/'' \<notin> set c" using wf_elems_nosep [OF assms] by simp
  have sp: "split_sep (join_sep (rev st)) = rev st"
    using False el by (simp add: split_sep_join)
  have fo: "foldl (clean_step r) [] (rev st) = st" using assms by (rule foldl_clean_rev)
  have h: "hd (rev st) \<noteq> [] \<and> CHR ''/'' \<notin> set (hd (rev st))"
    using assms wf_elems_nosep [of r st "hd (rev st)"] False by (simp add: hd_rev)
  have "hd (hd (rev st)) \<in> set (hd (rev st))" using h by simp
  then have "hd (hd (rev st)) \<noteq> CHR ''/''" using h by metis
  moreover have "join_sep (rev st) \<noteq> [] \<and> hd (join_sep (rev st)) = hd (hd (rev st))"
    using hd_join_sep [of "rev st"] False h by simp
  ultimately have hj: "join_sep (rev st) \<noteq> [] \<and> hd (join_sep (rev st)) \<noteq> CHR ''/''"
    by simp
  show ?thesis
  proof (cases r)
    case True
    have "split_sep (CHR ''/'' # join_sep (rev st)) = [] # rev st"
      using split_sep_append [of "[]" "join_sep (rev st)"] sp by (simp add: split_sep_def)
    then show ?thesis using True False fo
      by (simp add: resolve_def clean_step_def)
  next
    case Fls: False
    then show ?thesis using False fo sp hj by (simp add: resolve_def)
  qed
qed

lemma resolve_Clean: "resolve (Clean s) = resolve s"
proof (cases "s = []")
  case True
  then show ?thesis by (simp add: Clean_def resolve_def split_sep_def clean_step_def)
next
  case False
  have "resolve (render (fst (resolve s), rev (rev (snd (resolve s))))) =
          (fst (resolve s), rev (rev (snd (resolve s))))"
    using wf_resolve by (rule resolve_render)
  then show ?thesis using False by (simp add: Clean_def)
qed

lemma Clean_nonempty: "Clean s \<noteq> []"
proof (cases "s = []")
  case True then show ?thesis by (simp add: Clean_def)
next
  case False
  obtain r out where ro: "resolve s = (r, out)" by (cases "resolve s")
  have wf: "wf_stack r (rev out)" using wf_resolve [of s] ro by simp
  show ?thesis
  proof (cases "r \<or> out = []")
    case True then show ?thesis using False ro by (auto simp: Clean_def)
  next
    case F: False
    then have "hd out \<in> set (rev out)" by simp
    then have "hd out \<noteq> []" using wf wf_elems_nosep by blast
    then have "join_sep out \<noteq> []" using F hd_join_sep by blast
    then show ?thesis using False ro F by (simp add: Clean_def)
  qed
qed

lemma Clean_idem: "Clean (Clean s) = Clean s"
proof -
  have "Clean (Clean s) = render (resolve (Clean s))"
    using Clean_nonempty [of s] by (simp add: Clean_def [of "Clean s"])
  also have "\<dots> = render (resolve s)" by (simp add: resolve_Clean)
  also have "\<dots> = Clean s"
    by (cases "s = []") (simp_all add: Clean_def resolve_def split_sep_def clean_step_def)
  finally show ?thesis .
qed


subsection \<open>Joining onto a folder\<close>

lemma resolve_sep_append:
  assumes "a \<noteq> []"
  shows "resolve (a @ CHR ''/'' # b) =
           (fst (resolve a),
            rev (foldl (clean_step (fst (resolve a))) (rev (snd (resolve a))) (split_sep b)))"
  using assms by (simp add: resolve_def Let_def split_sep_append)

lemma foldl_clean_no_dotdot:
  "''..'' \<notin> set xs \<Longrightarrow>
     foldl (clean_step r) st xs = rev (filter (\<lambda>c. c \<noteq> [] \<and> c \<noteq> ''.'') xs) @ st"
  by (induction xs arbitrary: st) (auto simp: clean_step_def)

lemma resolve_trim: "resolve (TrimSuffix s ''/'' @ CHR ''/'' # b) = resolve (s @ CHR ''/'' # b)"
proof (cases "s \<noteq> [] \<and> last s = CHR ''/''")
  case False
  then show ?thesis by (auto simp: TrimSuffix_sep)
next
  case True
  then obtain t where t: "s = t @ ''/''" by (cases s rule: rev_cases) auto
  have hd: "hd (t @ CHR ''/'' # CHR ''/'' # b) = hd (t @ CHR ''/'' # b)" by (cases t) simp_all
  have "split_sep (t @ CHR ''/'' # CHR ''/'' # b) = split_sep t @ [] # split_sep b"
    using split_sep_append [of t "CHR ''/'' # b"] split_sep_append [of "[]" b]
    by (simp add: split_sep_def)
  then show ?thesis
    using t hd by (simp add: TrimSuffix_sep resolve_def Let_def split_sep_append clean_step_def)
qed

lemma Clean_trim: "Clean (TrimSuffix s ''/'' @ CHR ''/'' # b) = Clean (s @ CHR ''/'' # b)"
  by (simp add: Clean_def resolve_trim)

lemma Join_clean: "a \<noteq> [] \<Longrightarrow> Clean (Join a b) = Join a b"
  by (simp add: Join_def Clean_idem)

lemma inside_Join:
  assumes "dest \<noteq> []" and "''..'' \<notin> set (split_sep name)"
  shows "inside dest (Join dest name)"
proof -
  have "resolve (Join dest name) = resolve (dest @ CHR ''/'' # name)"
    using assms(1) by (simp add: Join_def resolve_Clean)
  also have "\<dots> = (fst (resolve dest),
      snd (resolve dest) @ filter (\<lambda>c. c \<noteq> [] \<and> c \<noteq> ''.'') (split_sep name))"
    using assms by (simp add: resolve_sep_append foldl_clean_no_dotdot)
  finally show ?thesis using assms(2) by (cases "resolve dest") (auto simp: inside_def)
qed

subsection \<open>What the filesystem operations change\<close>

lemma foldl_mkdir:
  "foldl (\<lambda>f k. f(k \<mapsto> DirNode)) fs ks k' = (if k' \<in> set ks then Some DirNode else fs k')"
  by (induction ks arbitrary: fs) auto

lemma is_file_lookup: "is_file (lookup fs k) \<longleftrightarrow> k \<noteq> ''/'' \<and> k \<noteq> ''.'' \<and> is_file (fs k)"
  by (simp add: lookup_def)

lemma MkdirAll_adds_dirs:
  "MkdirAll p fs = (r, fs1) \<Longrightarrow> fs1 k = fs k \<or> fs1 k = Some DirNode"
  by (auto simp: MkdirAll_def foldl_mkdir split: if_splits)

lemma MkdirAll_keeps_files:
  assumes "MkdirAll p fs = (r, fs1)" and "is_file (lookup fs k)"
  shows "is_file (lookup fs1 k)"
proof (cases "p = [] \<or> list_ex (\<lambda>k. is_file (lookup fs k)) (dir_chain p)")
  case True
  then have "fs1 = fs" using assms(1) by (auto simp: MkdirAll_def split: if_splits)
  then show ?thesis using assms(2) by simp
next
  case False
  then have fs1: "fs1 = foldl (\<lambda>f k. f(k \<mapsto> DirNode)) fs (dir_chain p)"
    using assms(1) by (auto simp: MkdirAll_def split: if_splits)
  have "k \<notin> set (dir_chain p)"
    using False assms(2) unfolding list_ex_iff by blast
  then have "fs1 k = fs k" by (simp add: fs1 foldl_mkdir)
  then show ?thesis using assms(2) by (auto simp: lookup_def split: if_splits)
qed

lemma OpenFile_trunc_ok:
  "OpenFile_trunc p fs = (None, fs1) \<Longrightarrow>
     p \<noteq> [] \<and> fs1 = fs(Clean p \<mapsto> FileNode []) \<and> Clean p \<noteq> ''/'' \<and> Clean p \<noteq> ''.''"
  by (auto simp: OpenFile_trunc_def Clean_def lookup_def
      split: if_splits prod.splits option.splits node.splits)

lemma OpenFile_trunc_err: "OpenFile_trunc p fs = (Some e, fs1) \<Longrightarrow> fs1 = fs"
  by (auto simp: OpenFile_trunc_def split: if_splits prod.splits option.splits node.splits)

lemma OpenFile_trunc_keeps_files:
  "OpenFile_trunc p fs = (r, fs1) \<Longrightarrow> is_file (lookup fs k) \<Longrightarrow> is_file (lookup fs1 k)"
  by (cases r) (auto simp: is_file_lookup dest!: OpenFile_trunc_ok OpenFile_trunc_err)

lemma write_open_keeps_files:
  "is_file (lookup fs k) \<Longrightarrow> is_file (lookup (write_open p b fs) k)"
  by (simp add: is_file_lookup write_open_def)

subsection \<open>The extraction loop\<close>

lemma Unzip_entries_keeps_files:
  "is_file (lookup fs k) \<Longrightarrow> is_file (lookup (snd (Unzip_entries dest es fs)) k)"
proof (induction es arbitrary: fs)
  case Nil
  then show ?case by simp
next
  case (Cons f es)
  show ?case
  proof (cases "zOpenErr f")
    case (Some e)
    then show ?thesis using Cons.prems by simp
  next
    case None
    show ?thesis
    proof (cases "IsDir f")
      case True
      have "is_file (lookup (snd (MkdirAll (Join dest (zName f)) fs)) k)"
        using Cons.prems MkdirAll_keeps_files [of "Join dest (zName f)" fs] by (metis prod.collapse)
      then show ?thesis using None True Cons.IH by (simp add: Let_def)
    next
      case False
      define fpath where "fpath = Join dest (zName f)"
      define fdir where "fdir = (if LastIndex_sep fpath > - 1 then take (nat (LastIndex_sep fpath)) fpath else [])"
      obtain r1 fs1 where m: "MkdirAll fdir fs = (r1, fs1)" by (cases "MkdirAll fdir fs")
      have k1: "is_file (lookup fs1 k)" using m Cons.prems by (rule MkdirAll_keeps_files)
      obtain r2 fs2 where o: "OpenFile_trunc fpath fs1 = (r2, fs2)" by (cases "OpenFile_trunc fpath fs1")
      have k2: "is_file (lookup fs2 k)" using o k1 by (rule OpenFile_trunc_keeps_files)
      have k3: "is_file (lookup (write_open fpath (zData f) fs2) k)"
        using k2 by (rule write_open_keeps_files)
      show ?thesis
        using None False m o k1 k2 k3 Cons.IH [OF k3]
        by (auto simp: Let_def fpath_def [symmetric] fdir_def [symmetric] split: option.splits)
    qed
  qed
qed

lemma Unzip_entries_Cons_file:
  assumes "zOpenErr f = None" and "\<not> IsDir f"
  shows "Unzip_entries dest (f # rest) fs =
     (let fpath = Join dest (zName f);
          fdir = (if LastIndex_sep fpath > - 1 then take (nat (LastIndex_sep fpath)) fpath else [])
      in case MkdirAll fdir fs of
           (Some e, fs1) \<Rightarrow> (Fatal e, fs1)
         | (None, fs1) \<Rightarrow>
           (case OpenFile_trunc fpath fs1 of
              (Some e, fs2) \<Rightarrow> (Returned (Some e), fs2)
            | (None, fs2) \<Rightarrow>
              (case zReadErr f of
                 Some e \<Rightarrow> (Returned (Some e), write_open fpath (zData f) fs2)
               | None \<Rightarrow> Unzip_entries dest rest (write_open fpath (zData f) fs2))))"
  using assms by (simp add: Let_def)

lemma Unzip_entries_Cons_dir:
  assumes "zOpenErr f = None" and "IsDir f"
  shows "Unzip_entries dest (f # rest) fs =
           Unzip_entries dest rest (snd (MkdirAll (Join dest (zName f)) fs))"
  using assms by (simp add: Let_def)

lemma Unzip_entries_Cons_err:
  "zOpenErr f = Some e \<Longrightarrow> Unzip_entries dest (f # rest) fs = (Returned (Some e), fs)"
  by simp

lemma write_open_is_file:
  "Clean p \<noteq> ''/'' \<Longrightarrow> Clean p \<noteq> ''.'' \<Longrightarrow> is_file (lookup (write_open p b fs) (Clean p))"
  by (simp add: write_open_def lookup_def)

lemma Unzip_entries_writes:
  "fst (Unzip_entries dest es fs) = Returned None \<Longrightarrow> f \<in> set es \<Longrightarrow> \<not> IsDir f \<Longrightarrow>
     is_file (lookup (snd (Unzip_entries dest es fs)) (Clean (Join dest (zName f))))"
proof (induction es arbitrary: fs)
  case Nil
  then show ?case by simp
next
  case (Cons g es)
  show ?case
  proof (cases "zOpenErr g")
    case (Some e)
    then show ?thesis using Cons.prems by simp
  next
    case None
    show ?thesis
    proof (cases "IsDir g")
      case True
      then have eq: "Unzip_entries dest (g # es) fs =
          Unzip_entries dest es (snd (MkdirAll (Join dest (zName g)) fs))"
        using None by (rule Unzip_entries_Cons_dir [rotated])
      moreover have "f \<in> set es" using True Cons.prems by auto
      ultimately show ?thesis using Cons.IH Cons.prems by simp
    next
      case False
      define fpath where "fpath = Join dest (zName g)"
      define fdir where
        "fdir = (if LastIndex_sep fpath > - 1 then take (nat (LastIndex_sep fpath)) fpath else [])"
      note step = Unzip_entries_Cons_file [OF None False, of dest es fs, unfolded Let_def,
          folded fpath_def, folded fdir_def]
      obtain r1 fs1 where m: "MkdirAll fdir fs = (r1, fs1)" by (cases "MkdirAll fdir fs")
      obtain r2 fs2 where o: "OpenFile_trunc fpath fs1 = (r2, fs2)"
        by (cases "OpenFile_trunc fpath fs1")
      define fs3 where "fs3 = write_open fpath (zData g) fs2"
      from Cons.prems(1) step m o have r: "r1 = None" "r2 = None" "zReadErr g = None"
        by (auto split: option.splits)
      then have eq: "Unzip_entries dest (g # es) fs = Unzip_entries dest es fs3"
        using step m o by (simp add: fs3_def)
      have ok: "fst (Unzip_entries dest es fs3) = Returned None"
        using Cons.prems(1) eq by simp
      show ?thesis
      proof (cases "f \<in> set es")
        case True
        then show ?thesis using Cons.IH [OF ok True Cons.prems(3)] eq by simp
      next
        case F: False
        then have fg: "f = g" using Cons.prems(2) by simp
        have "Clean fpath \<noteq> ''/'' \<and> Clean fpath \<noteq> ''.''"
          using o r OpenFile_trunc_ok by blast
        then have "is_file (lookup fs3 (Clean fpath))"
          unfolding fs3_def by (simp add: write_open_is_file)
        then have "is_file (lookup (snd (Unzip_entries dest es fs3)) (Clean fpath))"
          by (rule Unzip_entries_keeps_files)
        then show ?thesis using eq fg by (simp add: fpath_def)
      qed
    qed
  qed
qed

lemma Unzip_entries_new_files:
  "is_file (snd (Unzip_entries dest es fs) k) \<Longrightarrow> snd (Unzip_entries dest es fs) k \<noteq> fs k \<Longrightarrow>
     \<exists>f\<in>set es. \<not> IsDir f \<and> k = Clean (Join dest (zName f))"
proof (induction es arbitrary: fs)
  case Nil
  then show ?case by simp
next
  case (Cons g es)
  show ?case
  proof (cases "zOpenErr g")
    case (Some e)
    then show ?thesis using Cons.prems by simp
  next
    case None
    show ?thesis
    proof (cases "IsDir g")
      case True
      define fs1 where "fs1 = snd (MkdirAll (Join dest (zName g)) fs)"
      have eq: "Unzip_entries dest (g # es) fs = Unzip_entries dest es fs1"
        using None True by (simp add: Unzip_entries_Cons_dir fs1_def)
      have d: "fs1 k = fs k \<or> fs1 k = Some DirNode"
        unfolding fs1_def using MkdirAll_adds_dirs [of "Join dest (zName g)" fs] by (metis prod.collapse)
      have "snd (Unzip_entries dest es fs1) k \<noteq> fs1 k"
      proof
        assume a: "snd (Unzip_entries dest es fs1) k = fs1 k"
        with Cons.prems eq d show False by auto
      qed
      then have "\<exists>f\<in>set es. \<not> IsDir f \<and> k = Clean (Join dest (zName f))"
        using Cons.IH [of fs1] Cons.prems(1) eq by simp
      then show ?thesis by auto
    next
      case False
      define fpath where "fpath = Join dest (zName g)"
      define fdir where
        "fdir = (if LastIndex_sep fpath > - 1 then take (nat (LastIndex_sep fpath)) fpath else [])"
      note step = Unzip_entries_Cons_file [OF None False, of dest es fs, unfolded Let_def,
          folded fpath_def, folded fdir_def]
      obtain r1 fs1 where m: "MkdirAll fdir fs = (r1, fs1)" by (cases "MkdirAll fdir fs")
      obtain r2 fs2 where o: "OpenFile_trunc fpath fs1 = (r2, fs2)"
        by (cases "OpenFile_trunc fpath fs1")
      define fs3 where "fs3 = write_open fpath (zData g) fs2"
      have d1: "fs1 k = fs k \<or> fs1 k = Some DirNode" using m by (rule MkdirAll_adds_dirs)
      have d2: "fs2 k = fs1 k \<or> k = Clean fpath"
        using o by (cases r2) (auto dest: OpenFile_trunc_ok OpenFile_trunc_err)
      have d3: "fs3 k = fs2 k \<or> k = Clean fpath" by (simp add: fs3_def write_open_def)
      have here: "k = Clean fpath \<Longrightarrow> ?thesis" using False by (auto simp: fpath_def)
      consider (fatal) "snd (Unzip_entries dest (g # es) fs) = fs1"
        | (openerr) "snd (Unzip_entries dest (g # es) fs) = fs2"
        | (readerr) "snd (Unzip_entries dest (g # es) fs) = fs3"
        | (more) "Unzip_entries dest (g # es) fs = Unzip_entries dest es fs3"
        using step m o by (auto simp: fs3_def split: option.splits)
      then show ?thesis
      proof cases
        case fatal
        then show ?thesis using Cons.prems d1 by auto
      next
        case openerr
        then show ?thesis using Cons.prems d1 d2 here by auto
      next
        case readerr
        then show ?thesis using Cons.prems d1 d2 d3 here by auto
      next
        case more
        show ?thesis
        proof (cases "snd (Unzip_entries dest es fs3) k = fs3 k")
          case True
          then show ?thesis using Cons.prems more d1 d2 d3 here by auto
        next
          case F: False
          then have "\<exists>f\<in>set es. \<not> IsDir f \<and> k = Clean (Join dest (zName f))"
            using Cons.IH [of fs3] Cons.prems(1) more by simp
          then show ?thesis by auto
        qed
      qed
    qed
  qed
qed

subsection \<open>Unfolding the model on concrete data\<close>

lemmas path_eval = Join_def Clean_def resolve_def split_sep_def clean_step_def LastIndex_sep_def
  filepath_Dir_def dir_chain_def

lemmas fs_eval = MkdirAll_def OpenFile_trunc_def write_open_def WriteFile_def ReadFile_def
  OpenReader_def lookup_def IsDir_def Let_def

lemmas demo_eval = demo_b64_def reads_as_def file_entry_def fn_bundle_def traversal_def clash_def
  foreign_def shadow_def fresh_def staged_def host_def demo_bin_def TrimSuffix_def HasSuffix_def

subsection \<open>A run of the bundle variant that reports no error\<close>

lemma WriteFile_ok:
  assumes "WriteFile p b fs = (None, fs1)"
  shows "ReadFile p fs1 = Inr b"
proof -
  obtain r fs0 where o: "OpenFile_trunc p fs = (r, fs0)" by (cases "OpenFile_trunc p fs")
  with assms have r: "r = None" and fs1: "fs1 = write_open p b fs0"
    by (auto simp: WriteFile_def split: option.splits)
  from o r have "p \<noteq> [] \<and> Clean p \<noteq> ''/'' \<and> Clean p \<noteq> ''.''"
    using OpenFile_trunc_ok by blast
  then show ?thesis by (simp add: ReadFile_def fs1 write_open_def lookup_def)
qed

lemma getPath_Binary_Returned:
  "getPath_Binary p = (Returned path, p') \<Longrightarrow>
     SysFolder p \<noteq> [] \<and> path = TrimSuffix (SysFolder p) ''/'' @ ''/'' @ Name p \<and>
     p' = p\<lparr>SysFolder := TrimSuffix (SysFolder p) ''/''\<rparr>"
  by (auto simp: getPath_Binary_eq split: if_splits)

lemma getOutPath_Binary_Returned:
  "getOutPath_Binary p = (Returned path, p') \<Longrightarrow>
     SysFolder p \<noteq> [] \<and>
     path = TrimSuffix (SysFolder p) ''/'' @ ''/'' @ Name p @ ''/'' @ Name p @ ''.out'' \<and>
     p' = p\<lparr>SysFolder := TrimSuffix (SysFolder p) ''/''\<rparr>"
  by (auto simp: getOutPath_Binary_def getPath_Binary_eq split: if_splits)

lemma PrepareBin_Binary_success:
  assumes "PrepareBin_Binary D U b w = (Returned (out, None), b', w')"
  shows "\<exists>t2 decoded fs3.
           t2 = TrimSuffix (TrimSuffix (SysFolder b) ''/'') ''/'' \<and>
           D (BZipFile b) = Inr decoded \<and>
           ReadFile (TrimSuffix t2 ''/'' @ ''/'' @ Name b @ ''/function.zip'') fs3 = Inr decoded \<and>
           Unzip U (TrimSuffix t2 ''/'' @ ''/'' @ Name b @ ''/function.zip'')
             (t2 @ ''/'' @ Name b @ ''/runtime'') fs3 = (Returned None, files w') \<and>
           SysFolder b' = TrimSuffix (TrimSuffix t2 ''/'') ''/'' \<and>
           Name b' = Name b \<and>
           Cmd b' = SysFolder b' @ ''/'' @ Name b @ ''/runtime/bootstrap'' \<and>
           out = [] \<and> logged w' = logged w \<and> locked w' = locked w"
proof -
  obtain r1 b1 where g1: "getOutPath_Binary b = (r1, b1)" by (cases "getOutPath_Binary b")
  with assms obtain outPath where r1: "r1 = Returned outPath"
    by (cases r1) (auto simp: PrepareBin_Binary_def)
  note G1 = getOutPath_Binary_Returned [OF g1 [unfolded r1]]
  obtain e1 fs1 where m1: "MkdirAll (filepath_Dir outPath) (files w) = (e1, fs1)"
    by (cases "MkdirAll (filepath_Dir outPath) (files w)")
  with assms g1 r1 have e1: "e1 = None"
    by (cases e1) (auto simp: PrepareBin_Binary_def)
  obtain r2 b2 where g2: "getPath_Binary b1 = (r2, b2)" by (cases "getPath_Binary b1")
  with assms g1 r1 m1 e1 obtain path2 where r2: "r2 = Returned path2"
    by (cases r2) (auto simp: PrepareBin_Binary_def)
  note G2 = getPath_Binary_Returned [OF g2 [unfolded r2]]
  define runtimePath where "runtimePath = path2 @ ''/runtime''"
  obtain e2 fs2 where m2: "MkdirAll runtimePath fs1 = (e2, fs2)"
    by (cases "MkdirAll runtimePath fs1")
  note pre2 = g1 r1 m1 e1 g2 r2 m2 runtimePath_def [symmetric]
  with assms have e2: "e2 = None"
    by (cases e2) (auto simp: PrepareBin_Binary_def Let_def)
  define b3 where "b3 = b2\<lparr>Envs := Envs b2 @
      [''LAMBDA_TASK_ROOT='' @ runtimePath, ''PATH=/home/silas/.deno/bin:/usr/bin'']\<rparr>"
  from assms pre2 e2 obtain decoded where dec: "D (BZipFile b3) = Inr decoded"
    by (cases "D (BZipFile b3)") (auto simp: PrepareBin_Binary_def Let_def b3_def)
  obtain r3 b4 where g3: "getPath_Binary b3 = (r3, b4)" by (cases "getPath_Binary b3")
  note pre3 = pre2 e2 b3_def [symmetric] dec g3
  with assms obtain path3 where r3: "r3 = Returned path3"
    by (cases r3) (auto simp: PrepareBin_Binary_def Let_def)
  note G3 = getPath_Binary_Returned [OF g3 [unfolded r3]]
  define zipPath where "zipPath = path3 @ ''/function.zip''"
  obtain e3 fs3 where wf: "WriteFile zipPath decoded fs2 = (e3, fs3)"
    by (cases "WriteFile zipPath decoded fs2")
  note pre4 = pre3 r3 zipPath_def [symmetric] wf
  with assms have e3: "e3 = None"
    by (cases e3) (auto simp: PrepareBin_Binary_def Let_def)
  obtain r4 fs4 where uz: "Unzip U zipPath runtimePath fs3 = (r4, fs4)"
    by (cases "Unzip U zipPath runtimePath fs3")
  note pre5 = pre4 e3 uz
  with assms obtain err where r4: "r4 = Returned err"
    by (cases r4) (auto simp: PrepareBin_Binary_def Let_def)
  obtain r5 b5 where g4: "getPath_Binary b4 = (r5, b5)" by (cases "getPath_Binary b4")
  note pre6 = pre5 r4 g4
  with assms obtain path4 where r5: "r5 = Returned path4"
    by (cases r5) (auto simp: PrepareBin_Binary_def Let_def)
  note G4 = getPath_Binary_Returned [OF g4 [unfolded r5]]
  from assms pre6 r5 have fin: "err = None" "b' = b5\<lparr>Cmd := path4 @ ''/runtime/bootstrap''\<rparr>"
      "w' = w\<lparr>files := fs4, logged := logged w\<rparr>" "out = []"
    by (auto simp: PrepareBin_Binary_def Let_def split: option.splits)
  have rd: "ReadFile zipPath fs3 = Inr decoded" using wf e3 WriteFile_ok by blast
  have A: "D (BZipFile b) = Inr decoded" using dec G1 G2 by (simp add: b3_def)
  have p2: "path2 = TrimSuffix (TrimSuffix (SysFolder b) ''/'') ''/'' @ ''/'' @ Name b"
    using G1 G2 by simp
  have p3: "path3 = TrimSuffix (TrimSuffix (TrimSuffix (SysFolder b) ''/'') ''/'') ''/'' @ ''/'' @ Name b"
    using G1 G2 G3 by (simp add: b3_def)
  have B: "ReadFile (TrimSuffix (TrimSuffix (TrimSuffix (SysFolder b) ''/'') ''/'') ''/'' @ ''/'' @
             Name b @ ''/function.zip'') fs3 = Inr decoded"
    using rd by (simp add: zipPath_def p3)
  have C: "Unzip U (TrimSuffix (TrimSuffix (TrimSuffix (SysFolder b) ''/'') ''/'') ''/'' @ ''/'' @
             Name b @ ''/function.zip'')
             (TrimSuffix (TrimSuffix (SysFolder b) ''/'') ''/'' @ ''/'' @ Name b @ ''/runtime'') fs3 =
           (Returned None, files w')"
    using uz r4 fin by (simp add: zipPath_def runtimePath_def p2 p3)
  have E: "SysFolder b' = TrimSuffix (TrimSuffix (TrimSuffix (TrimSuffix (SysFolder b) ''/'') ''/'') ''/'') ''/''"
      "Name b' = Name b"
    using G1 G2 G3 G4 fin by (simp_all add: b3_def)
  have F: "Cmd b' = SysFolder b' @ ''/'' @ Name b @ ''/runtime/bootstrap''"
    using G1 G2 G3 G4 fin by (simp add: b3_def)
  show ?thesis using A B C E F fin by auto
qed


lemma Clean_eq_resolve: "a \<noteq> [] \<Longrightarrow> b \<noteq> [] \<Longrightarrow> resolve a = resolve b \<Longrightarrow> Clean a = Clean b"
  by (simp add: Clean_def)

lemma PrepareBin_Binary_returned:
  assumes "PrepareBin_Binary D U b w = (Returned (out, err), b', w')"
  shows "Cmd b' = Cmd b \<or>
         Cmd b' = TrimSuffix (TrimSuffix (TrimSuffix (TrimSuffix (SysFolder b) ''/'') ''/'') ''/'') ''/'' @
                  ''/'' @ Name b @ ''/runtime/bootstrap''"
  using assms
  unfolding PrepareBin_Binary_def getOutPath_Binary_def getPath_Binary_eq Let_def
  by (auto split: if_splits prod.splits option.splits sum.splits outcome.splits)


text \<open>
  When the extraction returns an error, \<open>PrepareBin\<close> logs it, sets the command and
  returns the same error.
\<close>

lemma PrepareBin_Binary_extraction_error:
  assumes "normal_folder (TrimSuffix (SysFolder b) ''/'')"
      and "workloadDir = TrimSuffix (SysFolder b) ''/'' @ ''/'' @ Name b"
      and "MkdirAll (filepath_Dir (workloadDir @ ''/'' @ Name b @ ''.out'')) (files w) = (None, fs1)"
      and "MkdirAll (workloadDir @ ''/runtime'') fs1 = (None, fs2)"
      and "DecodeString (BZipFile b) = Inr decoded"
      and "WriteFile (workloadDir @ ''/function.zip'') decoded fs2 = (None, fs3)"
      and "Unzip unzip (workloadDir @ ''/function.zip'') (workloadDir @ ''/runtime'') fs3 =
             (Returned (Some e), fs4)"
  shows "PrepareBin_Binary DecodeString unzip b w =
           (Returned ([], Some e),
            b\<lparr>SysFolder := TrimSuffix (SysFolder b) ''/'',
              Envs := Envs b @ [''LAMBDA_TASK_ROOT='' @ workloadDir @ ''/runtime'',
                                ''PATH=/home/silas/.deno/bin:/usr/bin''],
              Cmd := workloadDir @ ''/runtime/bootstrap''\<rparr>,
            w\<lparr>files := fs4,
              logged := logged w @
                [Printf ''error unzipping file: %s at path %s'' e [workloadDir @ ''/runtime'']]\<rparr>)"
proof -
  have ne: "SysFolder b \<noteq> []" using assms(1) by (rule normal_trim_nonempty)
  have t: "TrimSuffix (SysFolder b) ''/'' \<noteq> []"
      "TrimSuffix (TrimSuffix (SysFolder b) ''/'') ''/'' = TrimSuffix (SysFolder b) ''/''"
    using assms(1) by (simp_all add: normal_folder_def TrimSuffix_normal)
  show ?thesis
    using ne t assms(3-7) unfolding assms(2)
    by (simp add: PrepareBin_Binary_def getOutPath_Binary_def getPath_Binary_eq Let_def)
qed

section \<open>The layout of a workload\<close>

text \<open>
  Claim C4.  For a descriptor with a folder that is not empty, where the folder of the
  layout is the given one less one separator at its end: the workload directory is
  folder, separator, name in both variants.  In the source-build variant the binary path
  is the workload directory, separator, name; the pid, out and err paths are the binary
  path with \<open>.pid\<close>, \<open>.out\<close> and \<open>.err\<close>; and \<open>PrepareBin\<close> sets the command to the
  binary path.  In the bundle variant the pid, out and err paths are the workload
  directory, separator, name, with \<open>.pid\<close>, \<open>.out\<close> and \<open>.err\<close>; and (for a folder with
  at most one separator at its end) a \<open>PrepareBin\<close> that returns leaves the command as it
  was or sets it to the workload directory followed by \<open>/runtime/bootstrap\<close>, the latter
  whenever it returns no error.  For any folder, a \<open>PrepareBin\<close> that returns no error
  has set the command to folder, separator, name and \<open>/runtime/bootstrap\<close>, of the folder
  and name that it leaves in the descriptor.
\<close>

theorem path_derivation_policy:
  fixes p :: Preparable and b :: BinaryPreparable
  assumes "SysFolder p \<noteq> []" and "SysFolder b \<noteq> []"
      and "workloadDir = TrimSuffix (SysFolder p) ''/'' @ ''/'' @ Name p"
      and "binaryPath = workloadDir @ ''/'' @ Name p"
      and "workloadDirB = TrimSuffix (SysFolder b) ''/'' @ ''/'' @ Name b"
  shows "fst (getPath p) = Returned workloadDir \<and>
         fst (getBinPath p) = Returned binaryPath \<and>
         fst (getPidPath p) = Returned (binaryPath @ ''.pid'') \<and>
         fst (getOutPath p) = Returned (binaryPath @ ''.out'') \<and>
         fst (getErrPath p) = Returned (binaryPath @ ''.err'') \<and>
         (SourcePath p \<noteq> [] \<longrightarrow> Cmd (snd (PrepareBin run p)) = binaryPath) \<and>
         fst (getPath_Binary b) = Returned workloadDirB \<and>
         fst (getPidPath_Binary b) = Returned (workloadDirB @ ''/'' @ Name b @ ''.pid'') \<and>
         fst (getOutPath_Binary b) = Returned (workloadDirB @ ''/'' @ Name b @ ''.out'') \<and>
         fst (getErrPath_Binary b) = Returned (workloadDirB @ ''/'' @ Name b @ ''.err'') \<and>
         (normal_folder (TrimSuffix (SysFolder b) ''/'') \<and>
          PrepareBin_Binary DecodeString unzip b w = (Returned (out, err), b', w') \<longrightarrow>
            Cmd b' = Cmd b \<or> Cmd b' = workloadDirB @ ''/runtime/bootstrap'') \<and>
         (normal_folder (TrimSuffix (SysFolder b) ''/'') \<and>
          PrepareBin_Binary DecodeString unzip b w = (Returned (out, None), b', w') \<longrightarrow>
            Cmd b' = workloadDirB @ ''/runtime/bootstrap'') \<and>
         (PrepareBin_Binary DecodeString unzip b w = (Returned (out, None), b', w') \<longrightarrow>
            Cmd b' = SysFolder b' @ ''/'' @ Name b' @ ''/runtime/bootstrap'')"
proof -
  have src: "fst (getPath p) = Returned workloadDir \<and>
         fst (getBinPath p) = Returned binaryPath \<and>
         fst (getPidPath p) = Returned (binaryPath @ ''.pid'') \<and>
         fst (getOutPath p) = Returned (binaryPath @ ''.out'') \<and>
         fst (getErrPath p) = Returned (binaryPath @ ''.err'') \<and>
         (SourcePath p \<noteq> [] \<longrightarrow> Cmd (snd (PrepareBin run p)) = binaryPath)"
    using assms(1) by (simp add: assms(3,4) getPath_eq source_paths PrepareBin_eq Let_def)
  have bin: "fst (getPath_Binary b) = Returned workloadDirB \<and>
         fst (getPidPath_Binary b) = Returned (workloadDirB @ ''/'' @ Name b @ ''.pid'') \<and>
         fst (getOutPath_Binary b) = Returned (workloadDirB @ ''/'' @ Name b @ ''.out'') \<and>
         fst (getErrPath_Binary b) = Returned (workloadDirB @ ''/'' @ Name b @ ''.err'')"
    using assms(2) by (simp add: assms(5) binary_paths)
  have c1: "Cmd b' = Cmd b \<or> Cmd b' = workloadDirB @ ''/runtime/bootstrap''"
    if "normal_folder (TrimSuffix (SysFolder b) ''/'')"
      and "PrepareBin_Binary DecodeString unzip b w = (Returned (out, err), b', w')"
    using PrepareBin_Binary_returned [OF that(2)] that(1)
    by (simp add: assms(5) TrimSuffix_normal)
  have c2: "Cmd b' = workloadDirB @ ''/runtime/bootstrap''"
    if "normal_folder (TrimSuffix (SysFolder b) ''/'')"
      and "PrepareBin_Binary DecodeString unzip b w = (Returned (out, None), b', w')"
    using PrepareBin_Binary_success [OF that(2)] that(1)
    by (auto simp: assms(5) TrimSuffix_normal)
  have c3: "Cmd b' = SysFolder b' @ ''/'' @ Name b' @ ''/runtime/bootstrap''"
    if "PrepareBin_Binary DecodeString unzip b w = (Returned (out, None), b', w')"
    using PrepareBin_Binary_success [OF that] by auto
  show ?thesis using src bin c1 c2 c3 by blast
qed

theorem path_derivation_policy_witness:
  "fst (getPath demo_src) = Returned ''/var/pm/api'' \<and>
   fst (getBinPath demo_src) = Returned ''/var/pm/api/api'' \<and>
   fst (getPidPath demo_src) = Returned ''/var/pm/api/api.pid'' \<and>
   fst (getOutPath demo_src) = Returned ''/var/pm/api/api.out'' \<and>
   fst (getErrPath demo_src) = Returned ''/var/pm/api/api.err'' \<and>
   Cmd (snd (PrepareBin failing_toolchain demo_src)) = ''/var/pm/api/api'' \<and>
   fst (getPath_Binary demo_bin) = Returned ''/var/pm/fn'' \<and>
   fst (getPidPath_Binary demo_bin) = Returned ''/var/pm/fn/fn.pid'' \<and>
   fst (getOutPath_Binary demo_bin) = Returned ''/var/pm/fn/fn.out'' \<and>
   fst (getErrPath_Binary demo_bin) = Returned ''/var/pm/fn/fn.err'' \<and>
   fst (PrepareBin_Binary demo_b64 (reads_as fn_bundle) demo_bin fresh) = Returned ([], None) \<and>
   Cmd (fst (snd (PrepareBin_Binary demo_b64 (reads_as fn_bundle) demo_bin fresh))) =
     ''/var/pm/fn/runtime/bootstrap''"
proof -
  let ?r = "PrepareBin_Binary demo_b64 (reads_as fn_bundle) demo_bin fresh"
  have h1: "SysFolder demo_src \<noteq> []" and h2: "SysFolder demo_bin \<noteq> []"
    and h3: "''/var/pm/api'' = TrimSuffix (SysFolder demo_src) ''/'' @ ''/'' @ Name demo_src"
    and h4: "''/var/pm/api/api'' = ''/var/pm/api'' @ ''/'' @ Name demo_src"
    and h5: "''/var/pm/fn'' = TrimSuffix (SysFolder demo_bin) ''/'' @ ''/'' @ Name demo_bin"
    and sp: "SourcePath demo_src \<noteq> []"
    and nf: "normal_folder (TrimSuffix (SysFolder demo_bin) ''/'')"
    and nm: "Name demo_bin = ''fn''"
    by (simp_all add: demo_src_def demo_bin_def normal_folder_def TrimSuffix_def HasSuffix_def)
  have run: "fst ?r = Returned ([], None)"
    by (simp add: PrepareBin_Binary_def binary_paths Unzip_def path_eval fs_eval demo_eval)
  then have h6: "?r = (Returned ([], None), fst (snd ?r), snd (snd ?r))"
    by (metis prod.collapse)
  show ?thesis
    using path_derivation_policy [OF h1 h2 h3 h4 h5, of failing_toolchain demo_b64
        "reads_as fn_bundle" fresh "[]" None "fst (snd ?r)" "snd (snd ?r)"]
      sp nf nm h6 run
    by simp
qed

section \<open>Empty fields\<close>

text \<open>
  Claim C10.  The derivations index the last byte of \<open>SysFolder\<close>, and the source-build
  \<open>PrepareBin\<close> the last byte of \<open>SourcePath\<close>, with no check that the string is not
  empty.  With an empty \<open>SourcePath\<close> the source-build \<open>PrepareBin\<close> panics; with an
  empty \<open>SysFolder\<close> every derivation that reads the folder and the \<open>PrepareBin\<close> of
  either variant panic (the bundle variant before it touches a file).  For one
  derivation the empty folder is the only input that panics.  (\<open>getBinPath\<close> of the
  bundle variant returns \<open>SourcePath\<close> and reads no folder.)
\<close>

theorem empty_fields_panic:
  fixes p :: Preparable and b :: BinaryPreparable
  shows
  "(SourcePath p = [] \<longrightarrow> fst (PrepareBin run p) = Panic) \<and>
   (SysFolder p = [] \<longrightarrow>
      fst (getPath p) = Panic \<and> fst (getBinPath p) = Panic \<and> fst (getPidPath p) = Panic \<and>
      fst (getOutPath p) = Panic \<and> fst (getErrPath p) = Panic \<and>
      fst (PrepareBin run p) = Panic) \<and>
   (SysFolder b = [] \<longrightarrow>
      fst (getPath_Binary b) = Panic \<and> fst (getPidPath_Binary b) = Panic \<and>
      fst (getOutPath_Binary b) = Panic \<and> fst (getErrPath_Binary b) = Panic \<and>
      PrepareBin_Binary DecodeString unzip b w = (Panic, b, w)) \<and>
   (fst (getPath p) = Panic \<longleftrightarrow> SysFolder p = []) \<and>
   (fst (getPath_Binary b) = Panic \<longleftrightarrow> SysFolder b = []) \<and>
   (fst (PrepareBin run p) = Panic \<longleftrightarrow> SourcePath p = [] \<or> SysFolder p = [])"
  by (simp add: PrepareBin_eq source_paths getPath_eq binary_paths PrepareBin_Binary_def Let_def)

theorem empty_fields_panic_witness:
  "fst (PrepareBin failing_toolchain (demo_src\<lparr>SourcePath := []\<rparr>)) = Panic \<and>
   fst (getPath (demo_src\<lparr>SysFolder := []\<rparr>)) = Panic \<and>
   fst (getPidPath (demo_src\<lparr>SysFolder := []\<rparr>)) = Panic \<and>
   fst (PrepareBin failing_toolchain (demo_src\<lparr>SysFolder := []\<rparr>)) = Panic \<and>
   fst (getErrPath_Binary (demo_bin\<lparr>SysFolder := []\<rparr>)) = Panic \<and>
   fst (PrepareBin_Binary (\<lambda>s. Inr s) (\<lambda>s. Inr []) (demo_bin\<lparr>SysFolder := []\<rparr>)
          \<lparr>files = Map.empty, logged = [], locked = {}\<rparr>) = Panic \<and>
   fst (getPath demo_src) \<noteq> Panic"
  using empty_fields_panic [of "demo_src\<lparr>SourcePath := []\<rparr>" failing_toolchain]
    empty_fields_panic [of "demo_src\<lparr>SysFolder := []\<rparr>" failing_toolchain
      "demo_bin\<lparr>SysFolder := []\<rparr>" "\<lambda>s. Inr s" "\<lambda>s. Inr []"
      "\<lparr>files = Map.empty, logged = [], locked = {}\<rparr>"]
    empty_fields_panic [of "demo_src"]
  by (simp add: demo_src_def demo_bin_def)

section \<open>A build that fails\<close>

text \<open>
  Claim C6.  For a source-build descriptor whose source path ends in a separator (and
  whose folder is not empty, so that the toolchain is invoked at all), when the
  invocation of the toolchain fails, \<open>PrepareBin\<close> returns the captured output with that
  error, and the command field is set all the same to the path derived from the folder
  and the name: folder (less one separator at its end), name, name.
\<close>

theorem PrepareBin_build_failure:
  assumes "SourcePath p \<noteq> []" and "last (SourcePath p) = CHR ''/''" and "SysFolder p \<noteq> []"
    and "binPath = TrimSuffix (SysFolder p) ''/'' @ ''/'' @ Name p @ ''/'' @ Name p"
    and "cmd = (if Language p = ''go'' then ''go'' else [])"
    and "cmdArgs = (if Language p = ''go''
                    then [''build'', ''-o'', binPath, TrimSuffix (SourcePath p) ''/'' @ ''/.'']
                    else [])"
    and "run cmd cmdArgs = (output, Some err)"
  shows "PrepareBin run p =
           (Returned (output, Some err),
            p\<lparr>SourcePath := TrimSuffix (SourcePath p) ''/'',
              SysFolder := TrimSuffix (SysFolder p) ''/'',
              Cmd := binPath\<rparr>)"
  using assms by (auto simp: PrepareBin_eq Let_def)

theorem PrepareBin_build_failure_witness:
  "PrepareBin failing_toolchain demo_src =
     (Returned (''build failed'', Some (LibError ''exit status 1'')),
      demo_src\<lparr>SourcePath := ''/home/dev/api'', SysFolder := ''/var/pm'',
        Cmd := ''/var/pm/api/api''\<rparr>)"
  using PrepareBin_build_failure [of demo_src "''/var/pm/api/api''" "''go''"
      "[''build'', ''-o'', ''/var/pm/api/api'', ''/home/dev/api/.'']" failing_toolchain
      "''build failed''" "LibError ''exit status 1''"]
  by (simp add: demo_src_def failing_toolchain_def TrimSuffix_def HasSuffix_def)

section \<open>Repeated derivations\<close>

text \<open>
  Claim C8, as amended.  For a folder that, less one separator at its end, is in normal
  form (for both variants): the pid, out and err paths depend on the folder and the name
  only; each derivation returns a path; and on the descriptor that any of them leaves
  behind, each of them returns the same path again and leaves the descriptor as it is,
  so every later call agrees with the first.
\<close>

theorem derived_paths_stable:
  fixes p q :: Preparable and b c :: BinaryPreparable
  assumes "normal_folder (TrimSuffix (SysFolder p) ''/'')"
      and "normal_folder (TrimSuffix (SysFolder b) ''/'')"
  shows
  "(SysFolder q = SysFolder p \<and> Name q = Name p \<longrightarrow>
      fst (getPidPath q) = fst (getPidPath p) \<and> fst (getOutPath q) = fst (getOutPath p) \<and>
      fst (getErrPath q) = fst (getErrPath p)) \<and>
   (SysFolder c = SysFolder b \<and> Name c = Name b \<longrightarrow>
      fst (getPidPath_Binary c) = fst (getPidPath_Binary b) \<and>
      fst (getOutPath_Binary c) = fst (getOutPath_Binary b) \<and>
      fst (getErrPath_Binary c) = fst (getErrPath_Binary b)) \<and>
   (\<exists>path. fst (getPidPath p) = Returned path) \<and>
   (\<exists>path. fst (getOutPath p) = Returned path) \<and>
   (\<exists>path. fst (getErrPath p) = Returned path) \<and>
   (\<exists>path. fst (getPidPath_Binary b) = Returned path) \<and>
   (\<exists>path. fst (getOutPath_Binary b) = Returned path) \<and>
   (\<exists>path. fst (getErrPath_Binary b) = Returned path) \<and>
   (\<forall>p1 \<in> {snd (getPidPath p), snd (getOutPath p), snd (getErrPath p)}.
      getPidPath p1 = (fst (getPidPath p), p1) \<and>
      getOutPath p1 = (fst (getOutPath p), p1) \<and>
      getErrPath p1 = (fst (getErrPath p), p1)) \<and>
   (\<forall>b1 \<in> {snd (getPidPath_Binary b), snd (getOutPath_Binary b), snd (getErrPath_Binary b)}.
      getPidPath_Binary b1 = (fst (getPidPath_Binary b), b1) \<and>
      getOutPath_Binary b1 = (fst (getOutPath_Binary b), b1) \<and>
      getErrPath_Binary b1 = (fst (getErrPath_Binary b), b1))"
proof -
  have ne: "SysFolder p \<noteq> []" "SysFolder b \<noteq> []"
    using assms by (auto dest: normal_trim_nonempty)
  have tt: "TrimSuffix (TrimSuffix (SysFolder p) ''/'') ''/'' = TrimSuffix (SysFolder p) ''/''"
       "TrimSuffix (TrimSuffix (SysFolder b) ''/'') ''/'' = TrimSuffix (SysFolder b) ''/''"
    using assms by (simp_all add: TrimSuffix_normal)
  have ne': "TrimSuffix (SysFolder p) ''/'' \<noteq> []" "TrimSuffix (SysFolder b) ''/'' \<noteq> []"
    using assms by (simp_all add: normal_folder_def)
  show ?thesis
    using ne ne' tt by (simp add: source_paths binary_paths)
qed

theorem derived_paths_stable_witness:
  "normal_folder (TrimSuffix (SysFolder demo_src) ''/'') \<and>
   normal_folder (TrimSuffix (SysFolder demo_bin) ''/'') \<and>
   fst (getPidPath (demo_src\<lparr>Cmd := ''x''\<rparr>)) = fst (getPidPath demo_src) \<and>
   getPidPath (snd (getPidPath demo_src)) = (fst (getPidPath demo_src), snd (getPidPath demo_src)) \<and>
   getErrPath (snd (getPidPath demo_src)) = (fst (getErrPath demo_src), snd (getPidPath demo_src)) \<and>
   getOutPath_Binary (snd (getErrPath_Binary demo_bin)) =
     (fst (getOutPath_Binary demo_bin), snd (getErrPath_Binary demo_bin))"
proof -
  have h: "normal_folder (TrimSuffix (SysFolder demo_src) ''/'')"
          "normal_folder (TrimSuffix (SysFolder demo_bin) ''/'')"
    by (simp_all add: demo_src_def demo_bin_def normal_folder_def TrimSuffix_def HasSuffix_def)
  show ?thesis
    using h derived_paths_stable [OF h, of "demo_src\<lparr>Cmd := ''x''\<rparr>" demo_bin]
    by (simp add: demo_src_def)
qed

text \<open>
  The claim as it stands fails for a folder with two separators at its end, where the
  second call returns another path than the first, and for the root folder, where the
  second call panics: the first call has written the empty string back.
\<close>

theorem derived_paths_stable_counterexample:
  "fst (getPidPath (demo_src\<lparr>SysFolder := ''/var/pm//''\<rparr>)) = Returned ''/var/pm//api/api.pid'' \<and>
   fst (getPidPath (snd (getPidPath (demo_src\<lparr>SysFolder := ''/var/pm//''\<rparr>)))) =
     Returned ''/var/pm/api/api.pid'' \<and>
   fst (getPidPath (demo_src\<lparr>SysFolder := ''/''\<rparr>)) = Returned ''/api/api.pid'' \<and>
   fst (getPidPath (snd (getPidPath (demo_src\<lparr>SysFolder := ''/''\<rparr>)))) = Panic"
  by (simp add: demo_src_def source_paths TrimSuffix_def HasSuffix_def)

section \<open>One separator at the end of a folder\<close>

text \<open>
  Claim C7, as amended.  For a text \<open>s\<close> in normal form (not empty, no separator at its
  end), the folder \<open>s\<close> and the folder \<open>s\<close> with one separator added give the same
  workload, binary, pid, out and err paths in both variants, the same result of
  \<open>PrepareBin\<close> and the same command; and a source path \<open>s\<close> and \<open>s\<close> with one separator
  added give the same run of the source-build \<open>PrepareBin\<close>.
\<close>

theorem trailing_separator_irrelevant:
  fixes p :: Preparable and b :: BinaryPreparable
  assumes "normal_folder s"
  shows
  "fst (getPath (p\<lparr>SysFolder := s @ ''/''\<rparr>)) = fst (getPath (p\<lparr>SysFolder := s\<rparr>)) \<and>
   fst (getBinPath (p\<lparr>SysFolder := s @ ''/''\<rparr>)) = fst (getBinPath (p\<lparr>SysFolder := s\<rparr>)) \<and>
   fst (getPidPath (p\<lparr>SysFolder := s @ ''/''\<rparr>)) = fst (getPidPath (p\<lparr>SysFolder := s\<rparr>)) \<and>
   fst (getOutPath (p\<lparr>SysFolder := s @ ''/''\<rparr>)) = fst (getOutPath (p\<lparr>SysFolder := s\<rparr>)) \<and>
   fst (getErrPath (p\<lparr>SysFolder := s @ ''/''\<rparr>)) = fst (getErrPath (p\<lparr>SysFolder := s\<rparr>)) \<and>
   fst (PrepareBin run (p\<lparr>SysFolder := s @ ''/''\<rparr>)) = fst (PrepareBin run (p\<lparr>SysFolder := s\<rparr>)) \<and>
   Cmd (snd (PrepareBin run (p\<lparr>SysFolder := s @ ''/''\<rparr>))) =
     Cmd (snd (PrepareBin run (p\<lparr>SysFolder := s\<rparr>))) \<and>
   PrepareBin run (p\<lparr>SourcePath := s @ ''/''\<rparr>) = PrepareBin run (p\<lparr>SourcePath := s\<rparr>) \<and>
   fst (getPath_Binary (b\<lparr>SysFolder := s @ ''/''\<rparr>)) = fst (getPath_Binary (b\<lparr>SysFolder := s\<rparr>)) \<and>
   fst (getPidPath_Binary (b\<lparr>SysFolder := s @ ''/''\<rparr>)) =
     fst (getPidPath_Binary (b\<lparr>SysFolder := s\<rparr>)) \<and>
   fst (getOutPath_Binary (b\<lparr>SysFolder := s @ ''/''\<rparr>)) =
     fst (getOutPath_Binary (b\<lparr>SysFolder := s\<rparr>)) \<and>
   fst (getErrPath_Binary (b\<lparr>SysFolder := s @ ''/''\<rparr>)) =
     fst (getErrPath_Binary (b\<lparr>SysFolder := s\<rparr>)) \<and>
   PrepareBin_Binary DecodeString unzip (b\<lparr>SysFolder := s @ ''/''\<rparr>) w =
     PrepareBin_Binary DecodeString unzip (b\<lparr>SysFolder := s\<rparr>) w"
proof -
  have s: "s \<noteq> []" "TrimSuffix s ''/'' = s" "TrimSuffix (s @ ''/'') ''/'' = s"
    using assms by (simp_all add: normal_folder_def TrimSuffix_sep)
  have out: "getOutPath_Binary (b\<lparr>SysFolder := s @ ''/''\<rparr>) = getOutPath_Binary (b\<lparr>SysFolder := s\<rparr>)"
    using s by (simp add: binary_paths)
  have prep: "PrepareBin_Binary DecodeString unzip (b\<lparr>SysFolder := s @ ''/''\<rparr>) w =
     PrepareBin_Binary DecodeString unzip (b\<lparr>SysFolder := s\<rparr>) w"
    by (simp only: PrepareBin_Binary_def out)
  have src: "PrepareBin run (p\<lparr>SourcePath := s @ ''/''\<rparr>) = PrepareBin run (p\<lparr>SourcePath := s\<rparr>)"
    using s by (simp add: PrepareBin_eq Let_def)
  show ?thesis
    using s prep src by (simp add: source_paths getPath_eq binary_paths PrepareBin_eq Let_def)
qed

theorem trailing_separator_irrelevant_witness:
  "normal_folder ''/var/pm'' \<and>
   fst (getPidPath (demo_src\<lparr>SysFolder := ''/var/pm/''\<rparr>)) =
     fst (getPidPath (demo_src\<lparr>SysFolder := ''/var/pm''\<rparr>)) \<and>
   fst (getPidPath (demo_src\<lparr>SysFolder := ''/var/pm''\<rparr>)) = Returned ''/var/pm/api/api.pid''"
proof -
  have h: "normal_folder ''/var/pm''" by (simp add: normal_folder_def)
  show ?thesis
    using h trailing_separator_irrelevant [OF h, of demo_src]
    by (simp add: demo_src_def source_paths TrimSuffix_def HasSuffix_def)
qed

text \<open>
  The claim as it stands fails for a folder that already ends in a separator: only one
  is removed, so adding one more changes every derived path.
\<close>

theorem trailing_separator_counterexample:
  "fst (getPidPath (demo_src\<lparr>SysFolder := ''/var/pm/'' @ ''/''\<rparr>)) =
     Returned ''/var/pm//api/api.pid'' \<and>
   fst (getPidPath (demo_src\<lparr>SysFolder := ''/var/pm/''\<rparr>)) = Returned ''/var/pm/api/api.pid''"
  by (simp add: demo_src_def source_paths TrimSuffix_def HasSuffix_def)

section \<open>Scenario A: a bundle with bootstrap at its root\<close>

text \<open>
  Claim C5, as amended.  For a binary-bundle descriptor whose payload decodes to an
  archive that has a file \<open>bootstrap\<close> at its root, whenever \<open>PrepareBin\<close> returns
  without an error: the command field is the workload directory of the descriptor as the
  call leaves it (its folder, a separator, its name) followed by \<open>/runtime/bootstrap\<close>,
  and a file exists at that path.  The call removes at most one separator from the end
  of the folder at each of its four derivations; for a folder with at most one separator
  at its end, the folder left behind is the given one less that separator.
\<close>

theorem PrepareBin_Binary_bootstrap:
  assumes "PrepareBin_Binary DecodeString unzip b w = (Returned (out, None), b', w')"
      and "DecodeString (BZipFile b) = Inr zipBytes"
      and "unzip zipBytes = Inr entries"
      and "f \<in> set entries" and "zName f = ''bootstrap''" and "\<not> IsDir f"
  shows "Name b' = Name b \<and>
         Cmd b' = SysFolder b' @ ''/'' @ Name b' @ ''/runtime/bootstrap'' \<and>
         is_file (lookup (files w') (Clean (Cmd b'))) \<and>
         (normal_folder (TrimSuffix (SysFolder b) ''/'') \<longrightarrow>
            SysFolder b' = TrimSuffix (SysFolder b) ''/'')"
proof -
  define t2 where "t2 = TrimSuffix (TrimSuffix (SysFolder b) ''/'') ''/''"
  define zipPath where "zipPath = TrimSuffix t2 ''/'' @ ''/'' @ Name b @ ''/function.zip''"
  define runtimePath where "runtimePath = t2 @ ''/'' @ Name b @ ''/runtime''"
  from PrepareBin_Binary_success [OF assms(1)]
  obtain decoded fs3 where
        dec: "DecodeString (BZipFile b) = Inr decoded"
    and rd: "ReadFile zipPath fs3 = Inr decoded"
    and uz: "Unzip unzip zipPath runtimePath fs3 = (Returned None, files w')"
    and sf: "SysFolder b' = TrimSuffix (TrimSuffix t2 ''/'') ''/''"
    and nm: "Name b' = Name b"
    and cmd: "Cmd b' = SysFolder b' @ ''/'' @ Name b @ ''/runtime/bootstrap''"
    unfolding t2_def zipPath_def runtimePath_def by blast
  have "decoded = zipBytes" using dec assms(2) by simp
  then have "OpenReader unzip zipPath fs3 = Inr entries"
    using rd assms(3) by (simp add: OpenReader_def)
  then have ue: "Unzip_entries runtimePath entries fs3 = (Returned None, files w')"
    using uz by (simp add: Unzip_def)
  have "is_file (lookup (snd (Unzip_entries runtimePath entries fs3))
           (Clean (Join runtimePath (zName f))))"
    using ue assms(4,6) by (intro Unzip_entries_writes) simp_all
  then have "is_file (lookup (files w') (Clean (Join runtimePath ''bootstrap'')))"
    using ue assms(5) by simp
  moreover have "Clean (Join runtimePath ''bootstrap'') = Clean (runtimePath @ ''/bootstrap'')"
    by (simp add: Join_def runtimePath_def Clean_idem)
  moreover have "Clean (runtimePath @ ''/bootstrap'') = Clean (Cmd b')"
  proof -
    have "Clean (Cmd b') =
            Clean (TrimSuffix (TrimSuffix t2 ''/'') ''/'' @ CHR ''/'' # Name b @ ''/runtime/bootstrap'')"
      by (simp add: cmd sf)
    also have "\<dots> = Clean (TrimSuffix t2 ''/'' @ CHR ''/'' # Name b @ ''/runtime/bootstrap'')"
      by (rule Clean_trim)
    also have "\<dots> = Clean (t2 @ CHR ''/'' # Name b @ ''/runtime/bootstrap'')"
      by (rule Clean_trim)
    finally show ?thesis by (simp add: runtimePath_def)
  qed
  ultimately have isf: "is_file (lookup (files w') (Clean (Cmd b')))" by simp
  have "normal_folder (TrimSuffix (SysFolder b) ''/'') \<longrightarrow>
            SysFolder b' = TrimSuffix (SysFolder b) ''/''"
    by (simp add: sf t2_def TrimSuffix_normal)
  then show ?thesis using nm cmd isf by simp
qed

theorem PrepareBin_Binary_bootstrap_witness:
  "fst (PrepareBin_Binary demo_b64 (reads_as fn_bundle) demo_bin fresh) = Returned ([], None) \<and>
   Cmd (fst (snd (PrepareBin_Binary demo_b64 (reads_as fn_bundle) demo_bin fresh))) =
     ''/var/pm/fn/runtime/bootstrap'' \<and>
   is_file (lookup (files (snd (snd (PrepareBin_Binary demo_b64 (reads_as fn_bundle) demo_bin fresh))))
     ''/var/pm/fn/runtime/bootstrap'')"
proof -
  let ?r = "PrepareBin_Binary demo_b64 (reads_as fn_bundle) demo_bin fresh"
  have run: "fst ?r = Returned ([], None)"
    by (simp add: PrepareBin_Binary_def binary_paths Unzip_def path_eval fs_eval demo_eval)
  then have h1: "?r = (Returned ([], None), fst (snd ?r), snd (snd ?r))"
    by (metis prod.collapse)
  have h2: "demo_b64 (BZipFile demo_bin) = Inr ''PK''" by (simp add: demo_b64_def demo_bin_def)
  have h3: "reads_as fn_bundle ''PK'' = Inr fn_bundle" by (simp add: reads_as_def)
  have h4: "file_entry ''bootstrap'' ''#!/bin/sh'' \<in> set fn_bundle" by (simp add: fn_bundle_def)
  have h5: "zName (file_entry ''bootstrap'' ''#!/bin/sh'') = ''bootstrap''"
    by (simp add: file_entry_def)
  have h6: "\<not> IsDir (file_entry ''bootstrap'' ''#!/bin/sh'')"
    by (simp add: file_entry_def IsDir_def)
  have nf: "normal_folder (TrimSuffix (SysFolder demo_bin) ''/'')"
    by (simp add: demo_bin_def normal_folder_def TrimSuffix_def HasSuffix_def)
  have v: "TrimSuffix (SysFolder demo_bin) ''/'' = ''/var/pm''" "Name demo_bin = ''fn''"
    by (simp_all add: demo_bin_def TrimSuffix_def HasSuffix_def)
  note bs = PrepareBin_Binary_bootstrap [OF h1 h2 h3 h4 h5 h6]
  from bs nf have cmd: "Cmd (fst (snd ?r)) = ''/var/pm/fn/runtime/bootstrap''"
    by (simp add: v)
  have "Clean ''/var/pm/fn/runtime/bootstrap'' = ''/var/pm/fn/runtime/bootstrap''"
    by (simp add: path_eval)
  with bs cmd have "is_file (lookup (files (snd (snd ?r))) ''/var/pm/fn/runtime/bootstrap'')"
    by simp
  with run cmd show ?thesis by simp
qed

text \<open>
  The claim as it stands fails where the extraction stops before it reaches \<open>bootstrap\<close>:
  in the archive \<open>foreign\<close> the first entry cannot be opened; \<open>PrepareBin\<close> returns that
  error and sets the command, and there is no file at the command's path.  It also fails
  for the root folder, where \<open>PrepareBin\<close> panics at its second derivation.
\<close>

theorem PrepareBin_Binary_bootstrap_counterexample:
  "fst (PrepareBin_Binary demo_b64 (reads_as foreign) demo_bin fresh) =
     Returned ([], Some (LibError ''zip: unsupported compression algorithm'')) \<and>
   Cmd (fst (snd (PrepareBin_Binary demo_b64 (reads_as foreign) demo_bin fresh))) =
     ''/var/pm/fn/runtime/bootstrap'' \<and>
   files (snd (snd (PrepareBin_Binary demo_b64 (reads_as foreign) demo_bin fresh)))
     ''/var/pm/fn/runtime/bootstrap'' = None \<and>
   fst (PrepareBin_Binary demo_b64 (reads_as fn_bundle) (demo_bin\<lparr>SysFolder := ''/''\<rparr>) fresh) =
     Panic"
  by (simp add: PrepareBin_Binary_def binary_paths Unzip_def path_eval fs_eval demo_eval)

section \<open>Where the extraction writes\<close>

text \<open>
  Claim C1, as amended.  \<open>Unzip\<close> checks no entry path against the destination.  For
  a destination that is not the empty string, every file it writes is written at
  \<open>filepath.Join(dest, name)\<close> for an entry of the archive that is not a directory; and
  when no element of an entry name is \<open>..\<close>, that path lies inside the destination.
\<close>

theorem Unzip_writes_at_joined_paths:
  assumes "dest \<noteq> []"
      and "OpenReader unzip src fs = Inr entries"
      and "Unzip unzip src dest fs = (r, fs')"
      and "is_file (fs' k)" and "fs' k \<noteq> fs k"
  shows "(\<exists>f\<in>set entries. \<not> IsDir f \<and> k = Join dest (zName f)) \<and>
         ((\<forall>f\<in>set entries. ''..'' \<notin> set (split_sep (zName f))) \<longrightarrow> inside dest k)"
proof -
  have ue: "Unzip_entries dest entries fs = (r, fs')"
    using assms(2,3) by (simp add: Unzip_def)
  then have "\<exists>f\<in>set entries. \<not> IsDir f \<and> k = Clean (Join dest (zName f))"
    using Unzip_entries_new_files [of dest entries fs k] assms(4,5) by simp
  then obtain f where f: "f \<in> set entries" "\<not> IsDir f" "k = Join dest (zName f)"
    using assms(1) by (auto simp: Join_clean)
  have "inside dest k" if "\<forall>f\<in>set entries. ''..'' \<notin> set (split_sep (zName f))"
    using that f assms(1) by (simp add: inside_Join)
  then show ?thesis using f by blast
qed

theorem Unzip_writes_at_joined_paths_witness:
  "is_file (snd (Unzip (reads_as fn_bundle) ''/var/pm/fn/function.zip'' ''/var/pm/fn/runtime'' staged)
      ''/var/pm/fn/runtime/bootstrap'') \<and>
   staged ''/var/pm/fn/runtime/bootstrap'' = None \<and>
   inside ''/var/pm/fn/runtime'' ''/var/pm/fn/runtime/bootstrap''"
proof -
  let ?u = "Unzip (reads_as fn_bundle) ''/var/pm/fn/function.zip'' ''/var/pm/fn/runtime'' staged"
  have h1: "''/var/pm/fn/runtime'' \<noteq> []" by simp
  have h2: "OpenReader (reads_as fn_bundle) ''/var/pm/fn/function.zip'' staged = Inr fn_bundle"
    by (simp add: path_eval fs_eval demo_eval)
  have h3: "?u = (fst ?u, snd ?u)" by simp
  have h4: "is_file (snd ?u ''/var/pm/fn/runtime/bootstrap'')"
    by (simp add: Unzip_def path_eval fs_eval demo_eval)
  have s: "staged ''/var/pm/fn/runtime/bootstrap'' = None" by (simp add: staged_def)
  have h5: "snd ?u ''/var/pm/fn/runtime/bootstrap'' \<noteq> staged ''/var/pm/fn/runtime/bootstrap''"
  proof
    assume "snd ?u ''/var/pm/fn/runtime/bootstrap'' = staged ''/var/pm/fn/runtime/bootstrap''"
    with h4 s show False by simp
  qed
  have h6: "\<forall>f\<in>set fn_bundle. ''..'' \<notin> set (split_sep (zName f))"
    by (simp add: fn_bundle_def file_entry_def split_sep_def)
  show ?thesis
    using Unzip_writes_at_joined_paths [OF h1 h2 h3 h4 h5] h4 h6 s by simp
qed

text \<open>
  The claim as it stands fails: the entry \<open>../../etc/passwd\<close> is not rejected.  With the
  destination \<open>/srv/runtime\<close>, \<open>Unzip\<close> returns no error and has replaced the password
  file of the host, outside the destination, by the bytes of the entry.
\<close>

theorem Unzip_traversal_counterexample:
  "fst (Unzip (reads_as traversal) ''/srv/function.zip'' ''/srv/runtime'' host) = Returned None \<and>
   Join ''/srv/runtime'' ''../../etc/passwd'' = ''/etc/passwd'' \<and>
   host ''/etc/passwd'' = Some (FileNode ''root:x:0:0'') \<and>
   snd (Unzip (reads_as traversal) ''/srv/function.zip'' ''/srv/runtime'' host) ''/etc/passwd'' =
     Some (FileNode ''root::0:0'') \<and>
   \<not> inside ''/srv/runtime'' ''/etc/passwd''"
  by (simp add: Unzip_def path_eval fs_eval demo_eval inside_def)

section \<open>Failures inside the extraction\<close>

text \<open>
  Claim C2 says that a failure on any entry stops the extraction and is returned as an
  error value, and that no failure is fatal to the process.  The code does so when an
  entry cannot be opened, when its file cannot be created and when its bytes cannot be
  copied; not when the directory above a file cannot be made, where \<open>log.Fatal\<close> ends the
  process in front of the \<open>return err\<close> that follows it.  In the archive \<open>clash\<close> the
  entry \<open>a/b\<close> needs a directory where the entry \<open>a\<close> has written a file: the run is
  fatal, with the first file written and the second not.  And the error of making the
  directory of a directory entry is dropped: on \<open>shadow\<close> the extraction returns no error.
\<close>

theorem Unzip_mkdir_failure_is_fatal:
  "fst (Unzip (reads_as clash) ''/var/pm/fn/function.zip'' ''/var/pm/fn/runtime'' staged) =
     Fatal ENOTDIR \<and>
   snd (Unzip (reads_as clash) ''/var/pm/fn/function.zip'' ''/var/pm/fn/runtime'' staged)
     ''/var/pm/fn/runtime/a'' = Some (FileNode ''1'') \<and>
   snd (Unzip (reads_as clash) ''/var/pm/fn/function.zip'' ''/var/pm/fn/runtime'' staged)
     ''/var/pm/fn/runtime/a/b'' = None \<and>
   fst (MkdirAll ''/var/pm/fn/runtime/a'' (staged(''/var/pm/fn/runtime/a'' \<mapsto> FileNode ''1''))) =
     Some ENOTDIR \<and>
   fst (Unzip (reads_as shadow) ''/var/pm/fn/function.zip'' ''/var/pm/fn/runtime'' staged) =
     Returned None"
  by (simp add: Unzip_def path_eval fs_eval demo_eval)

text \<open>
  Claim C3 says that a failure of the extraction inside \<open>PrepareBin\<close> is logged and does
  not keep the call from running to its end and setting the command.  That holds for
  every error that \<open>Unzip\<close> returns (lemma \<open>PrepareBin_Binary_extraction_error\<close>), and
  fails with the same \<open>log.Fatal\<close>: for the archive \<open>clash\<close>, with the payload decoded and
  staged, the process ends inside \<open>PrepareBin\<close> and the command is left as it was, empty.
\<close>

theorem PrepareBin_Binary_extraction_fatal:
  "fst (PrepareBin_Binary demo_b64 (reads_as clash) demo_bin fresh) = Fatal ENOTDIR \<and>
   Cmd (fst (snd (PrepareBin_Binary demo_b64 (reads_as clash) demo_bin fresh))) = Cmd demo_bin \<and>
   Cmd demo_bin = []"
  by (simp add: PrepareBin_Binary_def binary_paths Unzip_def path_eval fs_eval demo_eval)

section \<open>Writing the registry and reading it back\<close>

text \<open>
  Claim C9.  For a value that the TOML encoder writes without error and that the decoder
  reads back from those bytes (an encodable value), and a file whose lock is free: when
  \<open>SafeWriteTomlFile\<close> has returned without error, \<open>SafeReadTomlFile\<close> on the same file
  returns without error the value that was written, and leaves the machine as it found
  it, the lock free again.
\<close>

theorem toml_round_trip:
  assumes "filename \<notin> locked w"
      and "SafeWriteTomlFile encode v filename w = (Returned None, w1)"
      and "\<And>b. encode v = (b, None) \<Longrightarrow> decode b target = Inr v"
  shows "SafeReadTomlFile decode filename target w1 = (Returned (None, v), w1)"
proof -
  define w0 where "w0 = w\<lparr>locked := insert filename (locked w)\<rparr>"
  have lk: "Lock filename w = Some w0" using assms(1) by (simp add: Lock_def w0_def)
  obtain e fs1 where o: "OpenFile_trunc filename (files w0) = (e, fs1)"
    by (cases "OpenFile_trunc filename (files w0)")
  with assms(2) lk have e: "e = None"
    by (cases e) (auto simp: SafeWriteTomlFile_def)
  obtain b err where en: "encode v = (b, err)" by (cases "encode v")
  with assms(2) lk o e have err: "err = None"
    and w1: "w1 = Unlock filename (w0\<lparr>files := write_open filename b fs1\<rparr>)"
    by (auto simp: SafeWriteTomlFile_def)
  have dec: "decode b target = Inr v" using assms(3) en err by simp
  have lw1: "locked w1 = locked w" using assms(1) by (simp add: w1 Unlock_def w0_def)
  have ok: "filename \<noteq> [] \<and> Clean filename \<noteq> ''/'' \<and> Clean filename \<noteq> ''.''"
    using o e OpenFile_trunc_ok by blast
  have rd: "ReadFile filename (files w1) = Inr b"
    using ok by (simp add: w1 Unlock_def ReadFile_def write_open_def lookup_def)
  have lk1: "Lock filename w1 = Some (w1\<lparr>locked := insert filename (locked w1)\<rparr>)"
    using assms(1) lw1 by (simp add: Lock_def)
  have rel: "Unlock filename (w1\<lparr>locked := insert filename (locked w1)\<rparr>) = w1"
    using assms(1) lw1 by (simp add: Unlock_def)
  show ?thesis using lk1 rd dec rel by (simp add: SafeReadTomlFile_def)
qed

theorem toml_round_trip_witness:
  "fst (SafeWriteTomlFile text_encode ''[fn]'' ''/registry.toml'' fresh) = Returned None \<and>
   fst (SafeReadTomlFile text_decode ''/registry.toml'' []
          (snd (SafeWriteTomlFile text_encode ''[fn]'' ''/registry.toml'' fresh))) =
     Returned (None, ''[fn]'')"
proof -
  let ?w = "SafeWriteTomlFile text_encode ''[fn]'' ''/registry.toml'' fresh"
  have h1: "''/registry.toml'' \<notin> locked fresh" by (simp add: fresh_def)
  have r: "fst ?w = Returned None"
    by (simp add: SafeWriteTomlFile_def Lock_def Unlock_def text_encode_def fresh_def
        path_eval fs_eval)
  then have h2: "?w = (Returned None, snd ?w)" by (metis prod.collapse)
  have h3: "\<And>b. text_encode ''[fn]'' = (b, None) \<Longrightarrow> text_decode b [] = Inr ''[fn]''"
    by (simp add: text_encode_def text_decode_def)
  show ?thesis
    using r toml_round_trip [of "''/registry.toml''" fresh text_encode "''[fn]''" "snd ?w"
        text_decode "[]", OF h1 h2 h3]
    by simp
qed

end
